theory Spec2Isabelle
  imports Complex_Main "HOL-Library.Word"
begin

unbundle bit_operations_syntax

section \<open>Bytes, slices and integers\<close>

text \<open>
  A Python \<open>bytes\<close> or \<open>bytearray\<close> value is a list of 8-bit words. Python integers are
  unbounded and are modelled by \<open>int\<close>; \<open>>>\<close>, \<open>&\<close> and \<open>~\<close> are \<open>drop_bit\<close>,
  \<open>AND\<close> and \<open>NOT\<close> on \<open>int\<close>. Every exception the modelled functions can raise is a
  value of \<open>error\<close>, returned as \<open>Inl\<close>.
\<close>

type_synonym bytes = "8 word list"

datatype error = IndexError | ValueError | OverflowError | TypeError

text \<open>\<open>data[a:b]\<close> for \<open>0 \<le> a \<le> b\<close>; \<open>data[a:]\<close> is \<open>drop a data\<close>. Slices never raise.\<close>

definition slice_of :: "nat \<Rightarrow> nat \<Rightarrow> 'a list \<Rightarrow> 'a list" where
  "slice_of a b xs = take (b - a) (drop a xs)"

text \<open>
  \<open>xs[a:b] = v\<close> on a bytearray: the slice is replaced by \<open>v\<close>, whatever the length
  of \<open>v\<close>, so the array shrinks or grows when \<open>v\<close> has not \<open>b - a\<close> bytes.
\<close>

definition set_slice :: "'a list \<Rightarrow> nat \<Rightarrow> nat \<Rightarrow> 'a list \<Rightarrow> 'a list" where
  "set_slice xs a b v = take a xs @ v @ drop (max a b) xs"

text \<open>\<open>data[i]\<close> on bytes: an integer in \<open>0..255\<close>, or IndexError.\<close>

definition get_item :: "bytes \<Rightarrow> nat \<Rightarrow> error + int" where
  "get_item xs i = (if i < length xs then Inr (uint (xs ! i)) else Inl IndexError)"

text \<open>\<open>xs[i] = v\<close> on a bytearray: ValueError unless \<open>v\<close> is in \<open>range(256)\<close>.\<close>

definition set_item :: "bytes \<Rightarrow> nat \<Rightarrow> int \<Rightarrow> error + bytes" where
  "set_item xs i v =
     (if v < 0 \<or> 256 \<le> v then Inl ValueError
      else if length xs \<le> i then Inl IndexError
      else Inr (xs[i := word_of_int v]))"

text \<open>\<open>int.from_bytes(bs, "big")\<close>, for any number of bytes.\<close>

definition from_bytes :: "bytes \<Rightarrow> int" where
  "from_bytes bs = foldl (\<lambda>acc b. acc * 256 + uint b) 0 bs"

text \<open>\<open>n.to_bytes(len, "big")\<close>: OverflowError when \<open>n\<close> is negative or too big.\<close>

definition to_bytes :: "int \<Rightarrow> nat \<Rightarrow> error + bytes" where
  "to_bytes n len =
     (if n < 0 \<or> 256 ^ len \<le> n then Inl OverflowError
      else Inr (map (\<lambda>i. word_of_int (n div 256 ^ (len - 1 - i))) [0..<len]))"

text \<open>\<open>range(0, n, 2)\<close>.\<close>

definition range2 :: "nat \<Rightarrow> nat list" where
  "range2 n = map (\<lambda>k. 2 * k) [0..<(n + 1) div 2]"

text \<open>\<open>s.encode("ascii")\<close> for a string of ASCII characters.\<close>

definition encode_ascii :: "string \<Rightarrow> bytes" where
  "encode_ascii s = map of_char s"

section \<open>Process configuration\<close>

text \<open>
  The notebook's module-level constants, written as the bytes that
  \<open>encode_mac_addr\<close>, \<open>encode_ip4_addr\<close> and \<open>bytes.fromhex\<close> return for the literals
  in the source: \<open>"1c:87:2c:46:e0:47"\<close>, \<open>"192.168.1.250"\<close>, \<open>"255.255.255.0"\<close>,
  \<open>"192.168.1.1"\<close>, \<open>"ff:ff:ff:ff:ff:ff"\<close>, \<open>"08 06"\<close> and \<open>"08 00"\<close>.
\<close>

definition MY_MAC_ADDR :: bytes where
  "MY_MAC_ADDR = [0x1c, 0x87, 0x2c, 0x46, 0xe0, 0x47]"

definition MY_IP_ADDR :: bytes where
  "MY_IP_ADDR = [192, 168, 1, 250]"

definition SUBNET_MASK :: bytes where
  "SUBNET_MASK = [255, 255, 255, 0]"

definition ROUTER_IP_ADDR :: bytes where
  "ROUTER_IP_ADDR = [192, 168, 1, 1]"

definition BROADCAST_MAC_ADDR :: bytes where
  "BROADCAST_MAC_ADDR = [0xff, 0xff, 0xff, 0xff, 0xff, 0xff]"

definition ARP :: bytes where
  "ARP = [0x08, 0x06]"

definition IPV4 :: bytes where
  "IPV4 = [0x08, 0x00]"

section \<open>Encoders: Ethernet and ARP\<close>

text \<open>
  \<open>ethernet_frame\<close> concatenates its four arguments. Its \<open>dst_addr\<close> is what the resolver
  returned, which is \<open>None\<close> when resolution failed: \<open>None + src_addr\<close> raises TypeError.
\<close>

definition ethernet_frame :: "bytes option \<Rightarrow> bytes \<Rightarrow> bytes \<Rightarrow> bytes \<Rightarrow> error + bytes" where
  "ethernet_frame dst_addr src_addr ethertype payload =
     (case dst_addr of
        None \<Rightarrow> Inl TypeError
      | Some dst \<Rightarrow> Inr (dst @ src_addr @ ethertype @ payload))"

definition arp_request :: "bytes \<Rightarrow> bytes \<Rightarrow> bytes \<Rightarrow> bytes" where
  "arp_request src_mac_addr src_ip_addr dst_ip_addr =
     (let hardware_type = [0x00, 0x01];
          protocol_type = [0x08, 0x00];
          hardware_len = [0x06];
          protocol_len = [0x04];
          operation = [0x00, 0x01];
          dst_mac_addr = [0x00, 0x00, 0x00, 0x00, 0x00, 0x00]
      in hardware_type @ protocol_type @ hardware_len @ protocol_len @ operation
         @ src_mac_addr @ src_ip_addr @ dst_mac_addr @ dst_ip_addr)"

section \<open>Encoders: checksum, IPv4 and ICMP\<close>

definition calculate_checksum :: "bytes \<Rightarrow> int" where
  "calculate_checksum header =
     (let words = map (\<lambda>i. from_bytes (slice_of i (i + 2) header)) (range2 (length header));
          full_sum = sum_list words;
          overflow = drop_bit 16 full_sum;
          full_sum = (full_sum AND 0xFFFF) + overflow;
          overflow = drop_bit 16 full_sum;
          full_sum = (full_sum AND 0xFFFF) + overflow
      in NOT full_sum AND 0xFFFF)"

text \<open>
  \<open>ip4_packet\<close> fills a 20-byte bytearray. The item assignments raise ValueError for a
  value outside \<open>range(256)\<close> (only \<open>protocol\<close> can be), \<open>to_bytes\<close> raises
  OverflowError for a total length above 65535, and the two address slices take the
  addresses as they come, whatever their length.
\<close>

definition ip4_packet :: "bytes \<Rightarrow> bytes \<Rightarrow> int \<Rightarrow> bytes \<Rightarrow> error + bytes" where
  "ip4_packet src_ip_addr dst_ip_addr protocol payload =
     (let version = 4; ihl = 5; dscp = 0; ecn = 0;
          total_length = ihl * 4 + int (length payload);
          identification = 0; flags = 2; fragment_offset = 0; ttl = 64;
          header = replicate (nat (ihl * 4)) 0
      in (case set_item header 0 (push_bit 4 version + ihl) of Inl e \<Rightarrow> Inl e | Inr header \<Rightarrow>
         (case set_item header 1 (push_bit 2 dscp + ecn) of Inl e \<Rightarrow> Inl e | Inr header \<Rightarrow>
         (case to_bytes total_length 2 of Inl e \<Rightarrow> Inl e | Inr b \<Rightarrow>
         (let header = set_slice header 2 4 b in
         (case to_bytes identification 2 of Inl e \<Rightarrow> Inl e | Inr b \<Rightarrow>
         (let header = set_slice header 4 6 b in
         (case to_bytes (push_bit 13 flags + fragment_offset) 2 of Inl e \<Rightarrow> Inl e | Inr b \<Rightarrow>
         (let header = set_slice header 6 8 b in
         (case set_item header 8 ttl of Inl e \<Rightarrow> Inl e | Inr header \<Rightarrow>
         (case set_item header 9 protocol of Inl e \<Rightarrow> Inl e | Inr header \<Rightarrow>
         (let header = set_slice header 12 16 src_ip_addr;
              header = set_slice header 16 20 dst_ip_addr;
              checksum = calculate_checksum header
          in (case to_bytes checksum 2 of Inl e \<Rightarrow> Inl e | Inr b \<Rightarrow>
             (let header = set_slice header 10 12 b
              in Inr (header @ payload)))))))))))))))"

definition icmp_ping_request_packet :: "int \<Rightarrow> int \<Rightarrow> error + bytes" where
  "icmp_ping_request_packet identifier sequence_no =
     (let message_type = 8; message_code = 0;
          message = replicate 8 0
      in (case set_item message 0 message_type of Inl e \<Rightarrow> Inl e | Inr message \<Rightarrow>
         (case set_item message 1 message_code of Inl e \<Rightarrow> Inl e | Inr message \<Rightarrow>
         (case to_bytes identifier 2 of Inl e \<Rightarrow> Inl e | Inr b \<Rightarrow>
         (let message = set_slice message 4 6 b in
         (case to_bytes sequence_no 2 of Inl e \<Rightarrow> Inl e | Inr b \<Rightarrow>
         (let message = set_slice message 6 8 b;
              message = message @ encode_ascii ''Python!!'';
              checksum = calculate_checksum message
          in (case to_bytes checksum 2 of Inl e \<Rightarrow> Inl e | Inr b \<Rightarrow>
             Inr (set_slice message 2 4 b)))))))))"

section \<open>Decoders\<close>

text \<open>
  The decoded records are the source's namedtuples, field for field. The fields \<open>length\<close>
  and \<open>id\<close> of \<open>Ipv4Packet\<close> are \<open>length_field\<close> and \<open>id_field\<close> here. The decoders
  come after the encoders because a field name, once declared, cannot be a parameter name.
\<close>

record EthernetFrame =
  dst_addr :: bytes
  src_addr :: bytes
  ethertype :: bytes
  payload :: bytes

definition decode_ethernet_frame :: "bytes \<Rightarrow> EthernetFrame" where
  "decode_ethernet_frame data =
     \<lparr>dst_addr = slice_of 0 6 data,
      src_addr = slice_of 6 12 data,
      ethertype = slice_of 12 14 data,
      payload = drop 14 data\<rparr>"

record ArpPacket =
  htype :: bytes
  ptype :: bytes
  hlen :: bytes
  plen :: bytes
  oper :: bytes
  sha :: bytes
  spa :: bytes
  tha :: bytes
  tpa :: bytes

definition decode_arp_packet :: "bytes \<Rightarrow> ArpPacket" where
  "decode_arp_packet data =
     \<lparr>htype = slice_of 0 2 data,
      ptype = slice_of 2 4 data,
      hlen = slice_of 4 5 data,
      plen = slice_of 5 6 data,
      oper = slice_of 6 8 data,
      sha = slice_of 8 14 data,
      spa = slice_of 14 18 data,
      tha = slice_of 18 24 data,
      tpa = slice_of 24 26 data\<rparr>"

record IcmpPacket =
  type :: int
  code :: int
  checksum :: bytes
  "identifier" :: int
  sequence_no :: int
  payload :: bytes

definition decode_icmp_packet :: "bytes \<Rightarrow> error + IcmpPacket" where
  "decode_icmp_packet data =
     (case get_item data 0 of Inl e \<Rightarrow> Inl e | Inr t \<Rightarrow>
     (case get_item data 1 of Inl e \<Rightarrow> Inl e | Inr c \<Rightarrow>
      Inr \<lparr>type = t,
           code = c,
           checksum = slice_of 2 4 data,
           identifier = from_bytes (slice_of 4 6 data),
           sequence_no = from_bytes (slice_of 6 8 data),
           payload = drop 8 data\<rparr>))"

record Ipv4Packet =
  version_ihl :: int
  type :: int
  length_field :: bytes
  id_field :: bytes
  flags_offset :: bytes
  ttl :: int
  protocol :: int
  checksum :: bytes
  src_addr :: bytes
  dst_addr :: bytes
  payload :: bytes

definition decode_ipv4_packet :: "bytes \<Rightarrow> error + Ipv4Packet" where
  "decode_ipv4_packet data =
     (case get_item data 0 of Inl e \<Rightarrow> Inl e | Inr v \<Rightarrow>
     (case get_item data 1 of Inl e \<Rightarrow> Inl e | Inr t \<Rightarrow>
     (case get_item data 8 of Inl e \<Rightarrow> Inl e | Inr l \<Rightarrow>
     (case get_item data 9 of Inl e \<Rightarrow> Inl e | Inr p \<Rightarrow>
      Inr \<lparr>version_ihl = v,
           type = t,
           length_field = slice_of 2 4 data,
           id_field = slice_of 4 6 data,
           flags_offset = slice_of 6 8 data,
           ttl = l,
           protocol = p,
           checksum = slice_of 10 12 data,
           src_addr = slice_of 12 16 data,
           dst_addr = slice_of 16 20 data,
           payload = drop 20 data\<rparr>))))"

section \<open>Sockets and the reply waiters\<close>

text \<open>
  A packet socket is what the code does with it: frames sent, frames still to arrive,
  and time spent blocked in \<open>select\<close>. An arrival \<open>(gap, raw)\<close> is a frame that becomes
  readable \<open>gap\<close> time units after the previous \<open>select\<close> call began. Time is exact
  (\<open>real\<close>), and only the time blocked in \<open>select\<close> is counted, as in the source, which
  measures \<open>select_time\<close> around the \<open>select\<close> call alone. \<open>blocked\<close> is not a variable of
  the source: it adds up the \<open>select_time\<close> of every call on the socket.
\<close>

record packet_socket =
  rx :: "(real \<times> bytes) list"
  tx :: "bytes list"
  blocked :: real

text \<open>\<open>socket.send(frame)\<close>.\<close>

definition send :: "packet_socket \<Rightarrow> bytes \<Rightarrow> packet_socket" where
  "send socket frame = socket\<lparr>tx := tx socket @ [frame]\<rparr>"

text \<open>
  \<open>select.select\<close> converts its timeout to a signed 64-bit count of nanoseconds, rounding
  away from zero, and raises OverflowError when the count does not fit, from \<open>2^63\<close>
  nanoseconds (about 9.22e9 seconds) on; it raises ValueError for a negative timeout.
  Both errors come before any waiting.
\<close>

definition select_timeout_error :: "real \<Rightarrow> error option" where
  "select_timeout_error timeout =
     (if timeout * 10 ^ 9 < - (2 ^ 63) \<or> 2 ^ 63 - 1 < timeout * 10 ^ 9 then Some OverflowError
      else if timeout < 0 then Some ValueError
      else None)"

text \<open>
  The loop of \<open>receive_arp_response\<close>, on the arrivals of its socket. One round is
  \<open>select.select([socket], [], [], time_left)\<close>, which raises for a timeout it does not
  accept, reports nothing readable when the next frame is further away than \<open>time_left\<close>
  (having blocked for \<open>time_left\<close>), and otherwise returns after \<open>gap\<close>; then
  \<open>socket.recv(65536)\<close>, which reads that frame, cut to 65536 bytes. The result is the
  returned value (\<open>None\<close> for the bare \<open>return\<close>), the time blocked, and the arrivals left.
\<close>

fun receive_arp_response_loop ::
  "(real \<times> bytes) list \<Rightarrow> bytes \<Rightarrow> real \<Rightarrow> real
     \<Rightarrow> (error + ArpPacket option) \<times> real \<times> (real \<times> bytes) list" where
  "receive_arp_response_loop [] sender_ip_addr time_left waited =
     (case select_timeout_error time_left of
        Some e \<Rightarrow> (Inl e, waited, [])
      | None \<Rightarrow> (Inr None, waited + time_left, []))"
| "receive_arp_response_loop ((gap, raw) # arrivals) sender_ip_addr time_left waited =
     (case select_timeout_error time_left of
        Some e \<Rightarrow> (Inl e, waited, (gap, raw) # arrivals)
      | None \<Rightarrow>
         (if time_left < gap
          then (Inr None, waited + time_left, (gap - time_left, raw) # arrivals)
          else
            let select_time = gap;
                data = take 65536 raw;
                frame = decode_ethernet_frame data;
                arp_packet = decode_arp_packet (EthernetFrame.payload frame)
            in if EthernetFrame.dst_addr frame = MY_MAC_ADDR \<and> ethertype frame = ARP
                  \<and> spa arp_packet = sender_ip_addr
               then (Inr (Some arp_packet), waited + select_time, arrivals)
               else
                 let time_left = time_left - select_time
                 in if time_left \<le> 0 then (Inr None, waited + select_time, arrivals)
                    else receive_arp_response_loop arrivals sender_ip_addr time_left
                           (waited + select_time)))"

definition receive_arp_response ::
  "packet_socket \<Rightarrow> bytes \<Rightarrow> real \<Rightarrow> (error + ArpPacket option) \<times> packet_socket" where
  "receive_arp_response socket sender_ip_addr timeout =
     (case receive_arp_response_loop (rx socket) sender_ip_addr timeout 0 of
        (response, waited, arrivals) \<Rightarrow>
          (response, socket\<lparr>rx := arrivals, blocked := blocked socket + waited\<rparr>))"

text \<open>
  The loop of \<open>receive_echo_reply\<close>. \<open>ident\<close> and \<open>seq_no\<close> are the source's parameters
  \<open>identifier\<close> and \<open>sequence_no\<close>. \<open>decode_ipv4_packet\<close> and \<open>decode_icmp_packet\<close> index
  their input, and the source catches nothing: their IndexError leaves the loop.
\<close>

fun receive_echo_reply_loop ::
  "(real \<times> bytes) list \<Rightarrow> bytes \<Rightarrow> int \<Rightarrow> int \<Rightarrow> real \<Rightarrow> real
     \<Rightarrow> (error + IcmpPacket option) \<times> real \<times> (real \<times> bytes) list" where
  "receive_echo_reply_loop [] src_ip_addr ident seq_no time_left waited =
     (case select_timeout_error time_left of
        Some e \<Rightarrow> (Inl e, waited, [])
      | None \<Rightarrow> (Inr None, waited + time_left, []))"
| "receive_echo_reply_loop ((gap, raw) # arrivals) src_ip_addr ident seq_no time_left waited =
     (case select_timeout_error time_left of
        Some e \<Rightarrow> (Inl e, waited, (gap, raw) # arrivals)
      | None \<Rightarrow>
         (if time_left < gap
          then (Inr None, waited + time_left, (gap - time_left, raw) # arrivals)
          else
            let select_time = gap;
                data = take 65536 raw;
                frame = decode_ethernet_frame data;
                found =
                  (if EthernetFrame.dst_addr frame = MY_MAC_ADDR \<and> ethertype frame = IPV4 then
                     (case decode_ipv4_packet (EthernetFrame.payload frame) of
                        Inl e \<Rightarrow> Inl e
                      | Inr ipv4_packet \<Rightarrow>
                          if Ipv4Packet.dst_addr ipv4_packet = MY_IP_ADDR
                             \<and> Ipv4Packet.src_addr ipv4_packet = src_ip_addr
                             \<and> protocol ipv4_packet = 1
                          then
                            (case decode_icmp_packet (Ipv4Packet.payload ipv4_packet) of
                               Inl e \<Rightarrow> Inl e
                             | Inr icmp_packet \<Rightarrow>
                                 if identifier icmp_packet = ident
                                    \<and> sequence_no icmp_packet = seq_no
                                 then Inr (Some icmp_packet)
                                 else Inr None)
                          else Inr None)
                   else Inr None)
            in (case found of
                  Inl e \<Rightarrow> (Inl e, waited + select_time, arrivals)
                | Inr (Some icmp_packet) \<Rightarrow>
                    (Inr (Some icmp_packet), waited + select_time, arrivals)
                | Inr None \<Rightarrow>
                    let time_left = time_left - select_time
                    in if time_left \<le> 0 then (Inr None, waited + select_time, arrivals)
                       else receive_echo_reply_loop arrivals src_ip_addr ident seq_no time_left
                              (waited + select_time))))"

definition receive_echo_reply ::
  "packet_socket \<Rightarrow> bytes \<Rightarrow> int \<Rightarrow> int \<Rightarrow> real \<Rightarrow> (error + IcmpPacket option) \<times> packet_socket" where
  "receive_echo_reply socket src_ip_addr ident seq_no timeout =
     (case receive_echo_reply_loop (rx socket) src_ip_addr ident seq_no timeout 0 of
        (response, waited, arrivals) \<Rightarrow>
          (response, socket\<lparr>rx := arrivals, blocked := blocked socket + waited\<rparr>))"

section \<open>The ARP resolver and the echo request\<close>

text \<open>
  The state outside the functions: the global dictionary \<open>ARP_TABLE\<close>, and \<open>eno1\<close>, the
  socket that \<open>open_packet_socket("eno1")\<close> yields inside the resolver. The resolver opens
  a socket at each cache miss and closes it on leaving; \<open>eno1\<close> keeps, from one opening to
  the next, what was sent, what is still to arrive and the time blocked.
\<close>

record world =
  ARP_TABLE :: "bytes \<rightharpoonup> bytes"
  eno1 :: packet_socket

definition resolve_local_ip_addr :: "bytes \<Rightarrow> world \<Rightarrow> (error + bytes option) \<times> world" where
  "resolve_local_ip_addr ip_addr w =
     (case ARP_TABLE w ip_addr of
        Some mac \<Rightarrow> (Inr (Some mac), w)
      | None \<Rightarrow>
          let s = eno1 w;
              arp_packet = arp_request MY_MAC_ADDR MY_IP_ADDR ip_addr
          in (case ethernet_frame (Some BROADCAST_MAC_ADDR) MY_MAC_ADDR ARP arp_packet of
                Inl e \<Rightarrow> (Inl e, w)
              | Inr frame \<Rightarrow>
                  (let s = send s frame
                   in (case receive_arp_response s ip_addr 1.0 of
                         (Inl e, s) \<Rightarrow> (Inl e, w\<lparr>eno1 := s\<rparr>)
                       | (Inr (Some response), s) \<Rightarrow>
                           (Inr (Some (sha response)),
                            w\<lparr>ARP_TABLE := (ARP_TABLE w)(ip_addr \<mapsto> sha response), eno1 := s\<rparr>)
                       | (Inr None, s) \<Rightarrow> (Inr None, w\<lparr>eno1 := s\<rparr>)))))"

definition is_on_same_subnet :: "bytes \<Rightarrow> bool" where
  "is_on_same_subnet ip_addr =
     (let my_network_prefix = map (\<lambda>(b1, b2). b1 AND b2) (zip MY_IP_ADDR SUBNET_MASK);
          other_network_prefix = map (\<lambda>(b1, b2). b1 AND b2) (zip ip_addr SUBNET_MASK)
      in my_network_prefix = other_network_prefix)"

definition resolve_ip_addr :: "bytes \<Rightarrow> world \<Rightarrow> (error + bytes option) \<times> world" where
  "resolve_ip_addr ip_addr w =
     (if is_on_same_subnet ip_addr then resolve_local_ip_addr ip_addr w
      else resolve_local_ip_addr ROUTER_IP_ADDR w)"

text \<open>
  \<open>send_echo_request\<close> evaluates the arguments of \<open>ethernet_frame\<close> from left to right, the
  resolver first, then the IPv4 packet around the ICMP message; it calls \<open>ethernet_frame\<close>
  and sends the frame on the socket it was given. \<open>ident\<close> and \<open>seq_no\<close> are the
  source's \<open>identifier\<close> and \<open>sequence_no\<close>.
\<close>

definition send_echo_request ::
  "packet_socket \<Rightarrow> bytes \<Rightarrow> int \<Rightarrow> int \<Rightarrow> world \<Rightarrow> (error + unit) \<times> packet_socket \<times> world" where
  "send_echo_request socket dst_ip_addr ident seq_no w =
     (case resolve_ip_addr dst_ip_addr w of
        (Inl e, w) \<Rightarrow> (Inl e, socket, w)
      | (Inr mac, w) \<Rightarrow>
          (case icmp_ping_request_packet ident seq_no of
             Inl e \<Rightarrow> (Inl e, socket, w)
           | Inr icmp \<Rightarrow>
               (case ip4_packet MY_IP_ADDR dst_ip_addr 1 icmp of
                  Inl e \<Rightarrow> (Inl e, socket, w)
                | Inr packet \<Rightarrow>
                    (case ethernet_frame mac MY_MAC_ADDR IPV4 packet of
                       Inl e \<Rightarrow> (Inl e, socket, w)
                     | Inr frame \<Rightarrow> (Inr (), send socket frame, w)))))"

section \<open>Definitions used in the statements and proofs\<close>

text \<open>
  The sum of the 16-bit big-endian words of a buffer, by recursion two bytes at a time,
  and one fold of the carry. \<open>calculate_checksum_eq\<close> below relates them to the source's
  list comprehension.
\<close>

fun word_sum :: "bytes \<Rightarrow> int" where
  "word_sum [] = 0"
| "word_sum [a] = uint a"
| "word_sum (a # b # rest) = uint a * 256 + uint b + word_sum rest"

definition fold16 :: "int \<Rightarrow> int" where
  "fold16 s = (s AND 0xFFFF) + drop_bit 16 s"

text \<open>The conditions under which each waiter returns a received frame.\<close>

definition is_arp_response :: "bytes \<Rightarrow> bytes \<Rightarrow> bool" where
  "is_arp_response sender_ip_addr raw =
     (let frame = decode_ethernet_frame (take 65536 raw)
      in EthernetFrame.dst_addr frame = MY_MAC_ADDR \<and> ethertype frame = ARP
         \<and> spa (decode_arp_packet (EthernetFrame.payload frame)) = sender_ip_addr)"

text \<open>
  The header that \<open>ip4_packet\<close> has built when it computes the checksum: the twenty
  bytes with the checksum field still zero, and the two address slices assigned.
\<close>

definition ip4_header_blank :: "int \<Rightarrow> int \<Rightarrow> bytes \<Rightarrow> bytes \<Rightarrow> bytes" where
  "ip4_header_blank total_length proto src_ip dst_ip =
     set_slice (set_slice
       [0x45, 0, word_of_int (total_length div 256), word_of_int total_length, 0, 0, 0x40, 0,
        64, word_of_int proto, 0, 0, 0, 0, 0, 0, 0, 0, 0, 0] 12 16 src_ip) 16 20 dst_ip"

text \<open>
  What \<open>receive_echo_reply\<close> finds in one received frame: the echo reply it waits for,
  nothing, or the IndexError of a decoder. It is the nested condition of the loop.
\<close>

definition echo_reply_found :: "bytes \<Rightarrow> int \<Rightarrow> int \<Rightarrow> bytes \<Rightarrow> error + IcmpPacket option" where
  "echo_reply_found src_ip_addr ident seq_no raw =
     (let frame = decode_ethernet_frame (take 65536 raw)
      in if EthernetFrame.dst_addr frame = MY_MAC_ADDR \<and> ethertype frame = IPV4 then
           (case decode_ipv4_packet (EthernetFrame.payload frame) of
              Inl e \<Rightarrow> Inl e
            | Inr ipv4_packet \<Rightarrow>
                if Ipv4Packet.dst_addr ipv4_packet = MY_IP_ADDR
                   \<and> Ipv4Packet.src_addr ipv4_packet = src_ip_addr
                   \<and> protocol ipv4_packet = 1
                then
                  (case decode_icmp_packet (Ipv4Packet.payload ipv4_packet) of
                     Inl e \<Rightarrow> Inl e
                   | Inr icmp_packet \<Rightarrow>
                       if identifier icmp_packet = ident \<and> sequence_no icmp_packet = seq_no
                       then Inr (Some icmp_packet)
                       else Inr None)
                else Inr None)
         else Inr None)"

section \<open>The checksum as arithmetic\<close>

text \<open>
  The bit operations of \<open>calculate_checksum\<close> as \<open>div\<close> and \<open>mod\<close>, its list
  comprehension as \<open>word_sum\<close>, and the bounds that make two folds enough.
\<close>

lemma and_ffff: "(x::int) AND 0xFFFF = x mod 65536"
  using take_bit_eq_mask[of 16 x, symmetric] by (simp add: take_bit_eq_mod mask_eq_exp_minus_1)

lemma fold16_eq: "fold16 s = s mod 65536 + s div 65536"
  by (simp add: fold16_def and_ffff drop_bit_eq_div)

lemma not_and_ffff: "NOT (x::int) AND 0xFFFF = (- x - 1) mod 65536"
  by (simp add: and_ffff not_int_def)

lemma range2_simps:
  "range2 0 = []" "range2 (Suc 0) = [0]"
  "range2 (Suc (Suc n)) = 0 # map (\<lambda>i. i + 2) (range2 n)"
proof -
  show "range2 0 = []" by (simp add: range2_def)
  show "range2 (Suc 0) = [0]" by (simp add: range2_def)
  have "[0..<Suc ((n + 1) div 2)] = 0 # map Suc [0..<(n + 1) div 2]"
    by (simp add: upt_conv_Cons map_Suc_upt del: upt_Suc)
  then show "range2 (Suc (Suc n)) = 0 # map (\<lambda>i. i + 2) (range2 n)"
    by (simp add: range2_def comp_def)
qed

lemma slice_shift2: "slice_of (i + 2) (i + 2 + 2) (a # b # rest) = slice_of i (i + 2) rest"
  by (simp add: slice_of_def)

lemma from_bytes_simps:
  "from_bytes [] = 0" "from_bytes [a] = uint a" "from_bytes [a, b] = uint a * 256 + uint b"
  by (simp_all add: from_bytes_def)

lemma words_eq_word_sum:
  "sum_list (map (\<lambda>i. from_bytes (slice_of i (i + 2) h)) (range2 (length h))) = word_sum h"
proof (induction h rule: word_sum.induct)
  case 1 show ?case by (simp add: range2_simps)
next
  case (2 a) show ?case by (simp add: range2_simps slice_of_def from_bytes_simps)
next
  case (3 a b rest)
  have "sum_list (map (\<lambda>i. from_bytes (slice_of i (i + 2) (a # b # rest))) (range2 (length (a # b # rest))))
      = from_bytes (slice_of 0 2 (a # b # rest))
        + sum_list (map (\<lambda>i. from_bytes (slice_of (i + 2) (i + 2 + 2) (a # b # rest))) (range2 (length rest)))"
    by (simp add: range2_simps comp_def numeral_2_eq_2)
  also have "\<dots> = uint a * 256 + uint b + word_sum rest"
    using 3 by (simp only: slice_shift2) (simp add: slice_of_def from_bytes_simps)
  finally show ?case by simp
qed

lemma calculate_checksum_eq:
  "calculate_checksum h = NOT (fold16 (fold16 (word_sum h))) AND 0xFFFF"
  unfolding calculate_checksum_def Let_def words_eq_word_sum fold16_def by simp


lemma word_sum_odd_tail:
  "odd (length b) \<Longrightarrow> word_sum (butlast b @ [0, last b]) = word_sum b"
  by (induction b rule: word_sum.induct) auto

lemma fold16_split:
  obtains q r where "s = 65536 * q + r" "0 \<le> r" "r < 65536" "fold16 s = q + r"
proof
  show "s = 65536 * (s div 65536) + s mod 65536" by simp
  show "0 \<le> s mod 65536" by simp
  show "s mod 65536 < 65536" by simp
  show "fold16 s = s div 65536 + s mod 65536" by (simp add: fold16_eq)
qed

lemma fold16_nonneg: "0 \<le> s \<Longrightarrow> 0 \<le> fold16 s"
  by (rule fold16_split[of s]) linarith

lemma fold16_pos: "0 < s \<Longrightarrow> 0 < fold16 s"
  by (rule fold16_split[of s]) linarith

lemma fold16_le1: "0 \<le> s \<Longrightarrow> s < 4294967296 \<Longrightarrow> fold16 s \<le> 131070"
  by (rule fold16_split[of s]) linarith

lemma fold16_le2: "0 \<le> s \<Longrightarrow> s \<le> 131070 \<Longrightarrow> fold16 s \<le> 65535"
proof (rule fold16_split[of s])
  fix q r
  assume a: "0 \<le> s" "s \<le> 131070" "s = 65536 * q + r" "0 \<le> r" "r < 65536" "fold16 s = q + r"
  then have "q = 0 \<or> q = 1" by linarith
  with a show ?thesis by auto
qed

lemma fold16_mod: "fold16 s mod 65535 = s mod 65535"
proof (rule fold16_split[of s])
  fix q r
  assume a: "s = 65536 * q + r" "fold16 s = q + r"
  have "s = 65535 * q + fold16 s" using a by simp
  then have "s mod 65535 = (65535 * q + fold16 s) mod 65535" by simp
  also have "\<dots> = fold16 s mod 65535" by (simp only: mod_mult_self4)
  finally show ?thesis by simp
qed

lemma neg_mod_65536:
  assumes "0 \<le> g" "g \<le> 65535"
  shows "(- g - 1) mod 65536 = 65535 - (g::int)"
proof -
  have e: "- g - 1 = (65535 - g) + 65536 * (- 1)" by simp
  have "(- g - 1) mod 65536 = ((65535 - g) + 65536 * (- 1)) mod 65536"
    by (rule arg_cong[OF e])
  also have "\<dots> = (65535 - g) mod 65536" by (simp only: mod_mult_self2)
  also have "\<dots> = 65535 - g" using assms by simp
  finally show ?thesis .
qed

lemma checksum_of_sum_zero:
  assumes S: "0 \<le> S" and T: "S + (NOT (fold16 (fold16 S)) AND 0xFFFF) < 4294967296"
  shows "NOT (fold16 (fold16 (S + (NOT (fold16 (fold16 S)) AND 0xFFFF)))) AND 0xFFFF = 0"
proof -
  define g where "g = fold16 (fold16 S)"
  define c where "c = (NOT g AND 0xFFFF)"
  define U where "U = S + c"
  define g' where "g' = fold16 (fold16 U)"
  have c0: "0 \<le> c" "c < 65536" by (simp_all add: c_def not_and_ffff)
  have Sb: "S < 4294967296" using T c0 unfolding c_def g_def by linarith
  have g_rng: "0 \<le> g" "g \<le> 65535"
    using S Sb by (simp_all add: g_def fold16_nonneg fold16_le1 fold16_le2)
  have c_eq: "c = 65535 - g" using g_rng by (simp add: c_def not_and_ffff neg_mod_65536)
  have U0: "0 \<le> U" "U < 4294967296" using S c0 T unfolding U_def c_def g_def by linarith+
  have g'_rng: "0 \<le> g'" "g' \<le> 65535"
    using U0 by (simp_all add: g'_def fold16_nonneg fold16_le1 fold16_le2)
  have g_mod: "g mod 65535 = S mod 65535" by (simp add: g_def fold16_mod)
  have "g' mod 65535 = U mod 65535" by (simp add: g'_def fold16_mod)
  also have "\<dots> = (S + (65535 - g)) mod 65535" by (simp add: U_def c_eq)
  also have "\<dots> = 0"
  proof -
    have "65535 dvd S - g" using g_mod[symmetric] by (simp only: mod_eq_dvd_iff)
    then have "65535 dvd S - g + 65535" by simp
    moreover have "S + (65535 - g) = S - g + 65535" by simp
    ultimately show ?thesis by (simp only: mod_eq_0_iff_dvd)
  qed
  finally have g'_mod: "g' mod 65535 = 0" .
  have "0 < U"
  proof (cases "S = 0")
    case True
    then have "g = 0" by (simp add: g_def fold16_eq)
    then show ?thesis using True by (simp add: U_def c_eq)
  next
    case False
    then show ?thesis using S c0 by (simp add: U_def)
  qed
  then have "0 < g'" by (simp add: g'_def fold16_pos)
  moreover have "65535 dvd g'" using g'_mod by (simp only: mod_eq_0_iff_dvd)
  ultimately have "65535 \<le> g'" by (rule zdvd_imp_le[rotated])
  with g'_rng have "g' = 65535" by simp
  then show ?thesis by (simp add: g'_def U_def c_def g_def not_and_ffff)
qed

lemma word_sum_nonneg: "0 \<le> word_sum h"
  by (induction h rule: word_sum.induct) simp_all

lemma uint8_le: "uint (a :: 8 word) \<le> 255"
  using uint_bounded[of a] by simp

lemma word_sum_le: "word_sum h \<le> 65535 * int ((length h + 1) div 2)"
proof (induction h rule: word_sum.induct)
  case 1 show ?case by simp
next
  case (2 a) show ?case using uint8_le[of a] by simp
next
  case (3 a b rest)
  show ?case using 3 uint8_le[of a] uint8_le[of b] by simp
qed

lemma set_slice_step:
  "set_slice (a # b # rest) (k + 2) (k + 2 + 2) v = a # b # set_slice rest k (k + 2) v"
  by (simp add: set_slice_def)

lemma word_sum_set_field:
  "even k \<Longrightarrow> k + 2 \<le> length h \<Longrightarrow>
   word_sum (set_slice h k (k + 2) [x, y])
     = word_sum (set_slice h k (k + 2) [0, 0]) + (uint x * 256 + uint y)"
proof (induction h arbitrary: k rule: word_sum.induct)
  case 1 then show ?case by simp
next
  case (2 a) then show ?case by simp
next
  case (3 a b rest)
  show ?case
  proof (cases "k = 0")
    case True
    then show ?thesis by (simp add: set_slice_def)
  next
    case False
    with 3(2) obtain j where j: "k = j + 2" "even j"
      by (metis add_2_eq_Suc' even_Suc not0_implies_Suc odd_pos Suc_pred)
    with 3(3) have "j + 2 \<le> length rest" by simp
    with 3(1)[OF j(2) this] show ?thesis
      unfolding j(1) set_slice_step by simp
  qed
qed

lemma length_set_field:
  "k + 2 \<le> length h \<Longrightarrow> length (set_slice h k (k + 2) [x, y]) = length h"
  by (simp add: set_slice_def)

lemma to_bytes_2:
  "0 \<le> n \<Longrightarrow> n < 65536 \<Longrightarrow> to_bytes n 2 = Inr [word_of_int (n div 256), word_of_int n]"
  by (simp add: to_bytes_def numeral_2_eq_2)

lemma uint_hi: "0 \<le> n \<Longrightarrow> n < 65536 \<Longrightarrow> uint (word_of_int (n div 256) :: 8 word) = n div 256"
  by (simp add: uint_word_of_int take_bit_eq_mod) 

lemma uint_lo: "uint (word_of_int n :: 8 word) = n mod 256"
  by (simp add: uint_word_of_int take_bit_eq_mod)

lemma calculate_checksum_range: "0 \<le> calculate_checksum h \<and> calculate_checksum h < 65536"
  by (simp add: calculate_checksum_eq not_and_ffff)


lemma to_bytes_checksum:
  "to_bytes (calculate_checksum h) 2
     = Inr [word_of_int (calculate_checksum h div 256), word_of_int (calculate_checksum h)]"
  using calculate_checksum_range[of h] by (simp add: to_bytes_2)

lemma checksum_bytes_value:
  "uint (word_of_int (calculate_checksum h div 256) :: 8 word) * 256
     + uint (word_of_int (calculate_checksum h) :: 8 word) = calculate_checksum h"
proof -
  define n where "n = calculate_checksum h"
  have r: "0 \<le> n" "n < 65536" using calculate_checksum_range[of h] by (simp_all add: n_def)
  have "uint (word_of_int (n div 256) :: 8 word) = n div 256" using r by (rule uint_hi)
  moreover have "uint (word_of_int n :: 8 word) = n mod 256" by (rule uint_lo)
  ultimately show ?thesis unfolding n_def[symmetric] by simp
qed

lemma embedded_checksum_zero:
  assumes k: "even k" "k + 2 \<le> length h" and len: "length h \<le> 131072"
    and c: "to_bytes (calculate_checksum (set_slice h k (k + 2) [0, 0])) 2 = Inr c"
  shows "calculate_checksum (set_slice h k (k + 2) c) = 0"
proof -
  define z where "z = set_slice h k (k + 2) [0, 0]"
  define x where "x = (word_of_int (calculate_checksum z div 256) :: 8 word)"
  define y where "y = (word_of_int (calculate_checksum z) :: 8 word)"
  have c_eq: "c = [x, y]" using c by (simp add: to_bytes_checksum z_def x_def y_def)
  have val: "uint x * 256 + uint y = calculate_checksum z"
    unfolding x_def y_def by (rule checksum_bytes_value)
  have sum: "word_sum (set_slice h k (k + 2) [x, y]) = word_sum z + calculate_checksum z"
    using word_sum_set_field[OF k, of x y] val by (simp add: z_def)
  have "word_sum (set_slice h k (k + 2) [x, y])
          \<le> 65535 * int ((length (set_slice h k (k + 2) [x, y]) + 1) div 2)"
    by (rule word_sum_le)
  also have "\<dots> = 65535 * int ((length h + 1) div 2)"
    by (simp only: length_set_field[OF k(2)])
  also have "\<dots> \<le> 65535 * 65536" using len by simp
  finally have "word_sum z + calculate_checksum z < 4294967296" using sum by simp
  then have "word_sum z + (NOT (fold16 (fold16 (word_sum z))) AND 0xFFFF) < 4294967296"
    by (simp add: calculate_checksum_eq)
  from checksum_of_sum_zero[OF word_sum_nonneg this]
  show ?thesis unfolding c_eq calculate_checksum_eq[of "set_slice h k (k + 2) [x, y]"] sum
    by (simp add: calculate_checksum_eq)
qed

section \<open>The checksum of an odd-length buffer\<close>

text \<open>
  Claim C9, as the code has it. For a buffer of odd length, \<open>header[i:i+2]\<close> at the last
  index is a single byte, and \<open>int.from_bytes\<close> of a single byte is that byte: the lone
  final byte counts as the low-order byte of its word. So the checksum of an odd-length
  buffer is the checksum of the buffer with a zero byte put in front of its last byte,
  not behind it.
\<close>

theorem calculate_checksum_odd_length:
  "odd (length b) \<Longrightarrow> calculate_checksum b = calculate_checksum (butlast b @ [0, last b])"
  by (simp add: calculate_checksum_eq word_sum_odd_tail)

text \<open>The three-byte buffer \<open>12 34 56\<close> has the checksum of \<open>12 34 00 56\<close>.\<close>

theorem calculate_checksum_odd_length_witness:
  "odd (length [0x12, 0x34, 0x56 :: 8 word])
   \<and> calculate_checksum [0x12, 0x34, 0x56] = calculate_checksum [0x12, 0x34, 0x00, 0x56]"
  using calculate_checksum_odd_length [of "[0x12, 0x34, 0x56]"] by simp

text \<open>
  Appending the zero byte, as the claim has it, gives another checksum: the one-byte
  buffer \<open>01\<close> sums to \<open>0x0001\<close>, the padded buffer \<open>01 00\<close> to \<open>0x0100\<close>.
\<close>

theorem calculate_checksum_not_zero_padded:
  "odd (length [0x01 :: 8 word])
   \<and> calculate_checksum [0x01] = 0xFFFE \<and> calculate_checksum ([0x01] @ [0x00]) = 0xFEFF
   \<and> calculate_checksum [0x01] \<noteq> calculate_checksum ([0x01] @ [0x00])"
  by (simp add: calculate_checksum_eq fold16_eq not_and_ffff)

section \<open>The IPv4 encoder in closed form\<close>

lemma replicate_20: "replicate 20 x = [x,x,x,x,x,x,x,x,x,x,x,x,x,x,x,x,x,x,x,x]"
  by (simp add: numeral_eq_Suc)

lemma replicate_8: "replicate 8 x = [x,x,x,x,x,x,x,x]"
  by (simp add: numeral_eq_Suc)

lemma to_bytes_2_iff:
  "to_bytes n 2 = (if n < 0 \<or> 65536 \<le> n then Inl OverflowError
                   else Inr [word_of_int (n div 256), word_of_int n])"
  by (simp add: to_bytes_def numeral_2_eq_2)

lemma ip4_packet_eq:
  "ip4_packet src dst proto body =
     (if 65535 < 20 + int (length body) then Inl OverflowError
      else if proto < 0 \<or> 256 \<le> proto then Inl ValueError
      else let h = ip4_header_blank (20 + int (length body)) proto src dst
           in Inr (set_slice h 10 12
                     [word_of_int (calculate_checksum h div 256), word_of_int (calculate_checksum h)]
                   @ body))"
proof -
  have t1: "to_bytes (20 + int (length body)) 2 =
      (if 65535 < 20 + int (length body) then Inl OverflowError
       else Inr [word_of_int ((20 + int (length body)) div 256), word_of_int (20 + int (length body))])"
    by (simp add: to_bytes_2_iff)
  have t2: "to_bytes 0 2 = Inr [0, 0]" by (simp add: to_bytes_2_iff)
  have t3: "to_bytes 16384 2 = Inr [0x40, 0]" by (simp add: to_bytes_2_iff)
  show ?thesis
    unfolding ip4_packet_def Let_def ip4_header_blank_def
    by (simp add: replicate_20 set_item_def t1 t2 t3 to_bytes_checksum
          set_slice_def[of _ 2 4] set_slice_def[of _ 4 6] set_slice_def[of _ 6 8]
          del: of_int_add)
qed

lemma ip4_header_blank_4:
  "length src = 4 \<Longrightarrow> length dst = 4 \<Longrightarrow>
   ip4_header_blank n proto src dst =
     [0x45, 0, word_of_int (n div 256), word_of_int n, 0, 0, 0x40, 0,
      64, word_of_int proto, 0, 0] @ src @ dst"
  by (simp add: ip4_header_blank_def set_slice_def)

lemma ip4_header_checksum_zero:
  assumes "length src = 4" "length dst = 4" "ip4_packet src dst proto body = Inr pkt"
  shows "calculate_checksum (take 20 pkt) = 0"
proof -
  define h where "h = ip4_header_blank (20 + int (length body)) proto src dst"
  define c :: bytes where
    "c = [word_of_int (calculate_checksum h div 256), word_of_int (calculate_checksum h)]"
  have h_eq: "h = [0x45, 0, word_of_int ((20 + int (length body)) div 256),
      word_of_int (20 + int (length body)), 0, 0, 0x40, 0, 64, word_of_int proto, 0, 0] @ src @ dst"
    unfolding h_def using assms(1,2) by (rule ip4_header_blank_4)
  have len: "length h = 20" using assms(1,2) by (simp add: h_eq)
  have zeroed: "set_slice h 10 (10 + 2) [0, 0] = h" using assms(1,2) by (simp add: h_eq set_slice_def)
  have pkt: "pkt = set_slice h 10 (10 + 2) c @ body"
    using assms(3) unfolding ip4_packet_eq Let_def h_def[symmetric] c_def[symmetric]
    by (simp split: if_splits)
  have "length (set_slice h 10 (10 + 2) c) = 20"
    using len by (simp add: set_slice_def c_def)
  then have hdr: "take 20 pkt = set_slice h 10 (10 + 2) c" by (simp add: pkt)
  have "to_bytes (calculate_checksum (set_slice h 10 (10 + 2) [0, 0])) 2 = Inr c"
    unfolding zeroed c_def by (rule to_bytes_checksum)
  with embedded_checksum_zero[of 10 h c] len have "calculate_checksum (set_slice h 10 (10 + 2) c) = 0"
    by simp
  then show ?thesis by (simp only: hdr)
qed

section \<open>A checksum written into its field verifies\<close>

text \<open>
  Claim C2, for a checksum field that is one of the 16-bit words the checksum sums, that
  is, a field at an even offset \<open>k\<close>. For a buffer \<open>h\<close> of at most 128 KiB: when the
  checksum of \<open>h\<close> with the field zeroed is written big-endian into the field, the checksum
  of the result is 0. The length of \<open>h\<close> need not be even for this. In particular the
  first twenty bytes of every packet that \<open>ip4_packet\<close> returns for 4-byte addresses have
  checksum 0.
\<close>

theorem checksum_embedded_verifies:
  "(even k \<and> k + 2 \<le> length h \<and> length h \<le> 131072
      \<and> to_bytes (calculate_checksum (set_slice h k (k + 2) [0, 0])) 2 = Inr c
    \<longrightarrow> calculate_checksum (set_slice h k (k + 2) c) = 0)
   \<and> (length src = 4 \<and> length dst = 4 \<and> ip4_packet src dst proto body = Inr pkt
    \<longrightarrow> calculate_checksum (take 20 pkt) = 0)"
  using embedded_checksum_zero[of k h c] ip4_header_checksum_zero[of src dst proto body pkt]
  by blast

text \<open>
  The header of the packet from 192.168.1.250 to 192.168.1.1 with protocol 1 and no
  payload: its checksum is \<open>0xb69d\<close>, and with \<open>b6 9d\<close> in bytes 10 and 11 it verifies.
\<close>

theorem checksum_embedded_verifies_witness:
  "even (10::nat)
   \<and> 10 + 2 \<le> length (ip4_header_blank 20 1 MY_IP_ADDR ROUTER_IP_ADDR)
   \<and> length (ip4_header_blank 20 1 MY_IP_ADDR ROUTER_IP_ADDR) \<le> 131072
   \<and> to_bytes (calculate_checksum
         (set_slice (ip4_header_blank 20 1 MY_IP_ADDR ROUTER_IP_ADDR) 10 (10 + 2) [0, 0])) 2
       = Inr [0xb6, 0x9d]
   \<and> calculate_checksum
         (set_slice (ip4_header_blank 20 1 MY_IP_ADDR ROUTER_IP_ADDR) 10 (10 + 2) [0xb6, 0x9d]) = 0
   \<and> length MY_IP_ADDR = 4 \<and> length ROUTER_IP_ADDR = 4
   \<and> ip4_packet MY_IP_ADDR ROUTER_IP_ADDR 1 [] =
       Inr [0x45, 0x00, 0x00, 0x14, 0x00, 0x00, 0x40, 0x00, 0x40, 0x01, 0xb6, 0x9d,
            0xc0, 0xa8, 0x01, 0xfa, 0xc0, 0xa8, 0x01, 0x01]
   \<and> calculate_checksum (take 20
         [0x45, 0x00, 0x00, 0x14, 0x00, 0x00, 0x40, 0x00, 0x40, 0x01, 0xb6, 0x9d,
          0xc0, 0xa8, 0x01, 0xfa, 0xc0, 0xa8, 0x01, 0x01]) = 0"
proof -
  have h: "ip4_header_blank 20 1 MY_IP_ADDR ROUTER_IP_ADDR =
      [0x45, 0x00, 0x00, 0x14, 0x00, 0x00, 0x40, 0x00, 0x40, 0x01, 0x00, 0x00,
       0xc0, 0xa8, 0x01, 0xfa, 0xc0, 0xa8, 0x01, 0x01]"
    by (simp add: ip4_header_blank_def set_slice_def MY_IP_ADDR_def ROUTER_IP_ADDR_def)
  have c: "calculate_checksum [0x45, 0x00, 0x00, 0x14, 0x00, 0x00, 0x40, 0x00, 0x40, 0x01, 0x00, 0x00,
       0xc0, 0xa8, 0x01, 0xfa, 0xc0, 0xa8, 0x01, 0x01] = 0xb69d"
    by (simp add: calculate_checksum_eq fold16_eq not_and_ffff)
  have t: "to_bytes (calculate_checksum
         (set_slice (ip4_header_blank 20 1 MY_IP_ADDR ROUTER_IP_ADDR) 10 (10 + 2) [0, 0])) 2
       = Inr [0xb6, 0x9d]"
    by (simp add: h set_slice_def c to_bytes_2_iff)
  have p: "ip4_packet MY_IP_ADDR ROUTER_IP_ADDR 1 [] =
       Inr [0x45, 0x00, 0x00, 0x14, 0x00, 0x00, 0x40, 0x00, 0x40, 0x01, 0xb6, 0x9d,
            0xc0, 0xa8, 0x01, 0xfa, 0xc0, 0xa8, 0x01, 0x01]"
    unfolding ip4_packet_eq by (simp add: h c set_slice_def)
  have l: "length MY_IP_ADDR = 4" "length ROUTER_IP_ADDR = 4"
    by (simp_all add: MY_IP_ADDR_def ROUTER_IP_ADDR_def)
  have n: "length (ip4_header_blank 20 1 MY_IP_ADDR ROUTER_IP_ADDR) = 20" by (simp add: h)
  from checksum_embedded_verifies[of 10 "ip4_header_blank 20 1 MY_IP_ADDR ROUTER_IP_ADDR"
      "[0xb6, 0x9d]" MY_IP_ADDR ROUTER_IP_ADDR 1 "[]"
      "[0x45, 0x00, 0x00, 0x14, 0x00, 0x00, 0x40, 0x00, 0x40, 0x01, 0xb6, 0x9d,
            0xc0, 0xa8, 0x01, 0xfa, 0xc0, 0xa8, 0x01, 0x01]"] t p l n
  show ?thesis by simp
qed

text \<open>
  The claim as it is written does not say where the field lies. At an odd offset the two
  bytes of the checksum fall into two different words and the result does not verify:
  in \<open>01 00 00 00\<close> with the field at bytes 1 and 2, the checksum \<open>0xfeff\<close> is written
  as \<open>01 fe ff 00\<close>, whose checksum is \<open>0xff00\<close>.
\<close>

theorem checksum_unaligned_field_counterexample:
  "even (length [0x01, 0x00, 0x00, 0x00 :: 8 word])
   \<and> to_bytes (calculate_checksum (set_slice [0x01, 0x00, 0x00, 0x00] 1 3 [0, 0])) 2 = Inr [0xfe, 0xff]
   \<and> calculate_checksum (set_slice [0x01, 0x00, 0x00, 0x00] 1 3 [0xfe, 0xff]) = 0xff00"
  by (simp add: set_slice_def calculate_checksum_eq fold16_eq not_and_ffff to_bytes_2_iff)

section \<open>The decoders in closed form\<close>

lemma decode_arp_request:
  assumes "length src_mac = 6" "length src_ip = 4" "length dst_ip = 4"
  shows "length (arp_request src_mac src_ip dst_ip) = 28"
    and "decode_arp_packet (arp_request src_mac src_ip dst_ip) =
      \<lparr>htype = [0x00, 0x01], ptype = [0x08, 0x00], hlen = [0x06], plen = [0x04],
       oper = [0x00, 0x01], sha = src_mac, spa = src_ip,
       tha = [0, 0, 0, 0, 0, 0], tpa = take 2 dst_ip\<rparr>"
  using assms by (simp_all add: arp_request_def decode_arp_packet_def slice_of_def)

lemma decode_ipv4_packet_eq:
  "decode_ipv4_packet b =
     (if length b < 10 then Inl IndexError
      else Inr \<lparr>version_ihl = uint (b ! 0), type = uint (b ! 1),
                length_field = slice_of 2 4 b, id_field = slice_of 4 6 b,
                flags_offset = slice_of 6 8 b, ttl = uint (b ! 8), protocol = uint (b ! 9),
                checksum = slice_of 10 12 b, src_addr = slice_of 12 16 b,
                dst_addr = slice_of 16 20 b, payload = drop 20 b\<rparr>)"
  by (simp add: decode_ipv4_packet_def get_item_def)

lemma decode_icmp_packet_eq:
  "decode_icmp_packet b =
     (if length b < 2 then Inl IndexError
      else Inr \<lparr>IcmpPacket.type = uint (b ! 0), code = uint (b ! 1),
                IcmpPacket.checksum = slice_of 2 4 b,
                identifier = from_bytes (slice_of 4 6 b),
                sequence_no = from_bytes (slice_of 6 8 b), IcmpPacket.payload = drop 8 b\<rparr>)"
  by (simp add: decode_icmp_packet_def get_item_def)

section \<open>The ARP request and its decoding\<close>

text \<open>
  Claim C3 at the request for the router's address. The encoder gives 28 bytes, and the
  decoder recovers every field but the last: \<open>tpa\<close> is \<open>data[24:26]\<close>, the first two bytes
  of the four-byte target address, here \<open>192.168\<close> of 192.168.1.1.
\<close>

theorem arp_request_target_ip_cut:
  "length (arp_request MY_MAC_ADDR MY_IP_ADDR ROUTER_IP_ADDR) = 28
   \<and> decode_arp_packet (arp_request MY_MAC_ADDR MY_IP_ADDR ROUTER_IP_ADDR) =
      \<lparr>htype = [0x00, 0x01], ptype = [0x08, 0x00], hlen = [0x06], plen = [0x04],
       oper = [0x00, 0x01], sha = MY_MAC_ADDR, spa = MY_IP_ADDR,
       tha = [0, 0, 0, 0, 0, 0], tpa = [192, 168]\<rparr>
   \<and> tpa (decode_arp_packet (arp_request MY_MAC_ADDR MY_IP_ADDR ROUTER_IP_ADDR)) \<noteq> ROUTER_IP_ADDR"
  by (simp add: arp_request_def decode_arp_packet_def slice_of_def
        MY_MAC_ADDR_def MY_IP_ADDR_def ROUTER_IP_ADDR_def)

section \<open>Decoding short buffers\<close>

text \<open>
  Claim C6, as the code has it. No decoder checks a length. The Ethernet and ARP decoders
  only slice: for every buffer they return a record, each field holding the bytes that
  the buffer has at the offsets of the field, fewer than the width of the field or none
  when the buffer ends before. The IPv4 decoder indexes bytes 0, 1, 8 and 9 and raises
  IndexError exactly when the buffer has fewer than 10 bytes; the ICMP decoder indexes
  bytes 0 and 1 and raises IndexError exactly when it has fewer than 2. From there on
  both return a record, its fields the indexed bytes and the slices of the buffer, with
  shortened or empty fields when the buffer is shorter than the header.
\<close>

theorem decoders_short_input:
  "decode_ethernet_frame b =
     \<lparr>EthernetFrame.dst_addr = take 6 b, EthernetFrame.src_addr = take 6 (drop 6 b),
      ethertype = take 2 (drop 12 b), EthernetFrame.payload = drop 14 b\<rparr>
   \<and> decode_arp_packet b =
     \<lparr>htype = take 2 b, ptype = take 2 (drop 2 b), hlen = take 1 (drop 4 b),
      plen = take 1 (drop 5 b), oper = take 2 (drop 6 b), sha = take 6 (drop 8 b),
      spa = take 4 (drop 14 b), tha = take 6 (drop 18 b), tpa = take 2 (drop 24 b)\<rparr>
   \<and> (decode_ipv4_packet b = Inl IndexError) = (length b < 10)
   \<and> (decode_ipv4_packet b =
        Inr \<lparr>version_ihl = uint (b ! 0), Ipv4Packet.type = uint (b ! 1),
             length_field = take 2 (drop 2 b), id_field = take 2 (drop 4 b),
             flags_offset = take 2 (drop 6 b), ttl = uint (b ! 8), protocol = uint (b ! 9),
             Ipv4Packet.checksum = take 2 (drop 10 b),
             Ipv4Packet.src_addr = take 4 (drop 12 b),
             Ipv4Packet.dst_addr = take 4 (drop 16 b),
             Ipv4Packet.payload = drop 20 b\<rparr>) = (10 \<le> length b)
   \<and> (decode_icmp_packet b = Inl IndexError) = (length b < 2)
   \<and> (decode_icmp_packet b =
        Inr \<lparr>IcmpPacket.type = uint (b ! 0), code = uint (b ! 1),
             IcmpPacket.checksum = take 2 (drop 2 b),
             identifier = from_bytes (take 2 (drop 4 b)),
             sequence_no = from_bytes (take 2 (drop 6 b)),
             IcmpPacket.payload = drop 8 b\<rparr>) = (2 \<le> length b)
   \<and> length (EthernetFrame.dst_addr (decode_ethernet_frame b)) = min 6 (length b)
   \<and> length (EthernetFrame.src_addr (decode_ethernet_frame b)) = min 6 (length b - 6)
   \<and> length (ethertype (decode_ethernet_frame b)) = min 2 (length b - 12)
   \<and> EthernetFrame.payload (decode_ethernet_frame b) = drop 14 b
   \<and> length (sha (decode_arp_packet b)) = min 6 (length b - 8)
   \<and> length (spa (decode_arp_packet b)) = min 4 (length b - 14)
   \<and> length (tha (decode_arp_packet b)) = min 6 (length b - 18)
   \<and> (\<exists>r. decode_ipv4_packet b = Inr r \<and> Ipv4Packet.payload r = drop 20 b
            \<and> length (Ipv4Packet.dst_addr r) = min 4 (length b - 16)) = (10 \<le> length b)
   \<and> (\<exists>r. decode_icmp_packet b = Inr r \<and> IcmpPacket.payload r = drop 8 b
            \<and> sequence_no r = from_bytes (slice_of 6 8 b)) = (2 \<le> length b)"
  by (auto simp add: decode_ethernet_frame_def decode_arp_packet_def slice_of_def
        decode_ipv4_packet_eq decode_icmp_packet_eq)

text \<open>
  Buffers one byte short of each format, 13, 27, 19 and 7 zero bytes, are all decoded:
  the Ethernet frame has a one-byte ethertype and the IPv4 packet a three-byte
  destination address.
\<close>

theorem decoders_accept_truncated:
  "decode_ethernet_frame [0,0,0,0,0,0,0,0,0,0,0,0,0] =
     \<lparr>EthernetFrame.dst_addr = [0,0,0,0,0,0], EthernetFrame.src_addr = [0,0,0,0,0,0],
      ethertype = [0], EthernetFrame.payload = []\<rparr>
   \<and> sha (decode_arp_packet [0,0,0,0,0,0,0,0,0,0,0,0,0,0,0,0,0,0,0,0,0,0,0,0,0,0,0]) = [0,0,0,0,0,0]
   \<and> (\<exists>r. decode_ipv4_packet [0,0,0,0,0,0,0,0,0,0,0,0,0,0,0,0,0,0,0] = Inr r
          \<and> Ipv4Packet.dst_addr r = [0,0,0])
   \<and> (\<exists>r. decode_icmp_packet [0,0,0,0,0,0,0] = Inr r \<and> sequence_no r = 0)"
  by (simp add: decode_ethernet_frame_def decode_arp_packet_def slice_of_def
        decode_ipv4_packet_eq decode_icmp_packet_eq from_bytes_simps)

section \<open>The IPv4 payload starts at byte 20\<close>

text \<open>
  Claim C10. For every buffer of at least 20 bytes \<open>decode_ipv4_packet\<close> returns a record
  whose payload is the buffer from byte 20 on, whatever the header length in the low
  four bits of byte 0, which it returns in \<open>version_ihl\<close>. So the options that follow a
  20-byte header are the first bytes of the payload.
\<close>

theorem decode_ipv4_packet_fixed_offset:
  "(20 \<le> length data \<longrightarrow>
      (\<exists>r. decode_ipv4_packet data = Inr r \<and> Ipv4Packet.payload r = drop 20 data
           \<and> version_ihl r = uint (data ! 0)))
   \<and> (length hdr = 20 \<longrightarrow>
      (\<exists>r. decode_ipv4_packet (hdr @ opts @ body) = Inr r
           \<and> Ipv4Packet.payload r = opts @ body \<and> version_ihl r = uint (hdr ! 0)))"
  by (simp add: decode_ipv4_packet_eq nth_append)

text \<open>A packet with header length 6: its four option bytes come back in the payload.\<close>

theorem decode_ipv4_packet_fixed_offset_witness:
  "20 \<le> length ([0x46, 0, 0, 0x19, 0, 0, 0x40, 0, 64, 1, 0, 0, 192, 168, 1, 1, 192, 168, 1, 250]
                   @ [0x94, 0x04, 0x00, 0x00] @ [0xAA :: 8 word])
   \<and> length [0x46, 0, 0, 0x19, 0, 0, 0x40, 0, 64, 1, 0, 0, 192, 168, 1, 1, 192, 168, 1, 250 :: 8 word] = 20
   \<and> (\<exists>r. decode_ipv4_packet
              ([0x46, 0, 0, 0x19, 0, 0, 0x40, 0, 64, 1, 0, 0, 192, 168, 1, 1, 192, 168, 1, 250]
               @ [0x94, 0x04, 0x00, 0x00] @ [0xAA]) = Inr r
          \<and> Ipv4Packet.payload r = [0x94, 0x04, 0x00, 0x00, 0xAA] \<and> version_ihl r = 0x46)"
  using decode_ipv4_packet_fixed_offset
    [of "[0x46, 0, 0, 0x19, 0, 0, 0x40, 0, 64, 1, 0, 0, 192, 168, 1, 1, 192, 168, 1, 250]
          @ [0x94, 0x04, 0x00, 0x00] @ [0xAA]"
        "[0x46, 0, 0, 0x19, 0, 0, 0x40, 0, 64, 1, 0, 0, 192, 168, 1, 1, 192, 168, 1, 250]"
        "[0x94, 0x04, 0x00, 0x00]" "[0xAA]"]
  by simp

section \<open>The echo request through three layers\<close>

lemma icmp_ping_request_packet_eq:
  "icmp_ping_request_packet i s =
     (if i < 0 \<or> 65536 \<le> i \<or> s < 0 \<or> 65536 \<le> s then Inl OverflowError
      else let m = [8, 0, 0, 0, word_of_int (i div 256), word_of_int i,
                    word_of_int (s div 256), word_of_int s] @ encode_ascii ''Python!!''
           in Inr ([8, 0, word_of_int (calculate_checksum m div 256),
                    word_of_int (calculate_checksum m),
                    word_of_int (i div 256), word_of_int i,
                    word_of_int (s div 256), word_of_int s] @ encode_ascii ''Python!!''))"
  unfolding icmp_ping_request_packet_def Let_def
  by (simp add: replicate_8 set_item_def to_bytes_2_iff[of i] to_bytes_2_iff[of s]
        to_bytes_checksum set_slice_def)

lemma from_bytes_to_bytes_2:
  assumes "0 \<le> n" "n < 65536"
  shows "from_bytes [word_of_int (n div 256), word_of_int n :: 8 word] = n"
proof -
  have "uint (word_of_int (n div 256) :: 8 word) = n div 256" using assms by (rule uint_hi)
  moreover have "uint (word_of_int n :: 8 word) = n mod 256" by (rule uint_lo)
  ultimately show ?thesis by (simp add: from_bytes_simps)
qed

lemma python_bytes: "encode_ascii ''Python!!'' = [0x50, 0x79, 0x74, 0x68, 0x6f, 0x6e, 0x21, 0x21]"
  by (simp add: encode_ascii_def)

text \<open>
  Claim C7. For every identifier and sequence number in \<open>0..65535\<close>, 6-byte hardware
  addresses and 4-byte IP addresses: the ICMP echo request is encoded, wrapped by
  \<open>ip4_packet\<close> with protocol 1 and by \<open>ethernet_frame\<close> with ethertype IPv4, and the three
  decoders in turn give back protocol 1, the identifier, the sequence number and the
  eight payload bytes \<open>Python!!\<close>.
\<close>

theorem echo_request_round_trip:
  assumes "0 \<le> ident" "ident < 65536" "0 \<le> seq_no" "seq_no < 65536"
    and "length dst_mac = 6" "length src_mac = 6" "length src_ip = 4" "length dst_ip = 4"
  shows "\<exists>icmp packet frame ip echo.
           icmp_ping_request_packet ident seq_no = Inr icmp
         \<and> ip4_packet src_ip dst_ip 1 icmp = Inr packet
         \<and> ethernet_frame (Some dst_mac) src_mac IPV4 packet = Inr frame
         \<and> ethertype (decode_ethernet_frame frame) = IPV4
         \<and> decode_ipv4_packet (EthernetFrame.payload (decode_ethernet_frame frame)) = Inr ip
         \<and> protocol ip = 1
         \<and> decode_icmp_packet (Ipv4Packet.payload ip) = Inr echo
         \<and> identifier echo = ident
         \<and> sequence_no echo = seq_no
         \<and> IcmpPacket.payload echo = encode_ascii ''Python!!''
         \<and> length (IcmpPacket.payload echo) = 8"
proof -
  obtain icmp where icmp: "icmp_ping_request_packet ident seq_no = Inr icmp"
    and icmp_eq: "\<exists>c1 c2. icmp = [8, 0, c1, c2, word_of_int (ident div 256), word_of_int ident,
                    word_of_int (seq_no div 256), word_of_int seq_no] @ encode_ascii ''Python!!''"
    using assms(1-4) unfolding icmp_ping_request_packet_eq Let_def by auto
  from icmp_eq obtain c1 c2 where icmp_bytes:
    "icmp = [8, 0, c1, c2, word_of_int (ident div 256), word_of_int ident,
             word_of_int (seq_no div 256), word_of_int seq_no] @ encode_ascii ''Python!!''"
    by blast
  have len_icmp: "length icmp = 16" by (simp add: icmp_bytes encode_ascii_def)
  define h where "h = ip4_header_blank (20 + int (length icmp)) 1 src_ip dst_ip"
  define hdr where "hdr = set_slice h 10 12
      [word_of_int (calculate_checksum h div 256), word_of_int (calculate_checksum h)]"
  have packet: "ip4_packet src_ip dst_ip 1 icmp = Inr (hdr @ icmp)"
    unfolding ip4_packet_eq Let_def hdr_def h_def by (simp add: len_icmp)
  have h_eq: "h = [0x45, 0, word_of_int ((20 + int (length icmp)) div 256),
      word_of_int (20 + int (length icmp)), 0, 0, 0x40, 0, 64, word_of_int 1, 0, 0] @ src_ip @ dst_ip"
    unfolding h_def using assms(7,8) by (rule ip4_header_blank_4)
  have len_hdr: "length hdr = 20" using assms(7,8) by (simp add: hdr_def h_eq set_slice_def)
  have proto: "hdr ! 9 = 1" using assms(7,8) by (simp add: hdr_def h_eq set_slice_def)
  define frame where "frame = dst_mac @ src_mac @ IPV4 @ hdr @ icmp"
  have frame: "ethernet_frame (Some dst_mac) src_mac IPV4 (hdr @ icmp) = Inr frame"
    by (simp add: ethernet_frame_def frame_def)
  have eth: "EthernetFrame.payload (decode_ethernet_frame frame) = hdr @ icmp"
    "ethertype (decode_ethernet_frame frame) = IPV4"
    using assms(5,6) by (simp_all add: decode_ethernet_frame_def frame_def IPV4_def slice_of_def)
  obtain ip where ip: "decode_ipv4_packet (hdr @ icmp) = Inr ip"
    and ip_payload: "Ipv4Packet.payload ip = icmp" and ip_proto: "protocol ip = 1"
    using len_hdr proto by (simp add: decode_ipv4_packet_eq nth_append)
  obtain echo where echo: "decode_icmp_packet icmp = Inr echo"
    and e1: "identifier echo = from_bytes [word_of_int (ident div 256), word_of_int ident]"
    and e2: "sequence_no echo = from_bytes [word_of_int (seq_no div 256), word_of_int seq_no]"
    and e3: "IcmpPacket.payload echo = encode_ascii ''Python!!''"
    by (simp add: decode_icmp_packet_eq icmp_bytes slice_of_def)
  have "identifier echo = ident" "sequence_no echo = seq_no"
    using assms(1-4) by (simp_all add: e1 e2 from_bytes_to_bytes_2)
  moreover have "length (IcmpPacket.payload echo) = 8" by (simp add: e3 encode_ascii_def)
  ultimately show ?thesis
    using icmp packet frame eth ip ip_payload ip_proto echo e3 by auto
qed

text \<open>
  Identifier 1 and sequence number 1, from this host to the router: the three decoders
  give back 1, 1 and the bytes \<open>50 79 74 68 6f 6e 21 21\<close>.
\<close>

theorem echo_request_round_trip_witness:
  "(0::int) \<le> 1 \<and> (1::int) < 65536
   \<and> length [0x00, 0x11, 0x22, 0x33, 0x44, 0x55 :: 8 word] = 6 \<and> length MY_MAC_ADDR = 6
   \<and> length MY_IP_ADDR = 4 \<and> length ROUTER_IP_ADDR = 4
   \<and> (\<exists>icmp packet frame ip echo.
           icmp_ping_request_packet 1 1 = Inr icmp
         \<and> ip4_packet MY_IP_ADDR ROUTER_IP_ADDR 1 icmp = Inr packet
         \<and> ethernet_frame (Some [0x00, 0x11, 0x22, 0x33, 0x44, 0x55]) MY_MAC_ADDR IPV4 packet
             = Inr frame
         \<and> ethertype (decode_ethernet_frame frame) = IPV4
         \<and> decode_ipv4_packet (EthernetFrame.payload (decode_ethernet_frame frame)) = Inr ip
         \<and> protocol ip = 1
         \<and> decode_icmp_packet (Ipv4Packet.payload ip) = Inr echo
         \<and> identifier echo = 1
         \<and> sequence_no echo = 1
         \<and> IcmpPacket.payload echo = [0x50, 0x79, 0x74, 0x68, 0x6f, 0x6e, 0x21, 0x21]
         \<and> length (IcmpPacket.payload echo) = 8)"
proof -
  have l: "length MY_MAC_ADDR = 6" "length MY_IP_ADDR = 4" "length ROUTER_IP_ADDR = 4"
    by (simp_all add: MY_MAC_ADDR_def MY_IP_ADDR_def ROUTER_IP_ADDR_def)
  from echo_request_round_trip [of 1 1 "[0x00, 0x11, 0x22, 0x33, 0x44, 0x55]" MY_MAC_ADDR
         MY_IP_ADDR ROUTER_IP_ADDR] l
  show ?thesis by (simp add: python_bytes)
qed

section \<open>The reply waiters\<close>

text \<open>One round of each loop, with the condition of the source folded into its name.\<close>

lemma select_timeout_ok:
  "0 \<le> timeout \<Longrightarrow> timeout * 10 ^ 9 \<le> 2 ^ 63 - 1 \<Longrightarrow> select_timeout_error timeout = None"
  by (simp add: select_timeout_error_def)

lemma select_timeout_error_nonneg:
  "0 \<le> timeout \<Longrightarrow> select_timeout_error timeout = Some e \<Longrightarrow> e = OverflowError"
  by (simp add: select_timeout_error_def split: if_splits)

lemma arp_loop_Cons:
  "receive_arp_response_loop ((gap, raw) # arrivals) sender time_left waited =
     (case select_timeout_error time_left of
        Some e \<Rightarrow> (Inl e, waited, (gap, raw) # arrivals)
      | None \<Rightarrow>
         (if time_left < gap
            then (Inr None, waited + time_left, (gap - time_left, raw) # arrivals)
          else if is_arp_response sender raw
            then (Inr (Some (decode_arp_packet
                    (EthernetFrame.payload (decode_ethernet_frame (take 65536 raw))))),
                  waited + gap, arrivals)
          else if time_left - gap \<le> 0 then (Inr None, waited + gap, arrivals)
          else receive_arp_response_loop arrivals sender (time_left - gap) (waited + gap)))"
  by (simp add: is_arp_response_def Let_def split: option.splits)

lemma echo_loop_Cons:
  "receive_echo_reply_loop ((gap, raw) # arrivals) src ident seq_no time_left waited =
     (case select_timeout_error time_left of
        Some e \<Rightarrow> (Inl e, waited, (gap, raw) # arrivals)
      | None \<Rightarrow>
         (if time_left < gap
            then (Inr None, waited + time_left, (gap - time_left, raw) # arrivals)
          else (case echo_reply_found src ident seq_no raw of
                  Inl e \<Rightarrow> (Inl e, waited + gap, arrivals)
                | Inr (Some icmp_packet) \<Rightarrow> (Inr (Some icmp_packet), waited + gap, arrivals)
                | Inr None \<Rightarrow>
                    if time_left - gap \<le> 0 then (Inr None, waited + gap, arrivals)
                    else receive_echo_reply_loop arrivals src ident seq_no (time_left - gap)
                           (waited + gap))))"
  by (simp add: echo_reply_found_def Let_def split: option.splits)

text \<open>
  The budget: whatever arrives, and also when \<open>select\<close> or a decoder raises, the time
  blocked is at most the time that was left.
\<close>

lemma arp_loop_waited:
  "0 \<le> time_left \<Longrightarrow>
   fst (snd (receive_arp_response_loop arrivals sender time_left waited)) \<le> waited + time_left"
proof (induction arrivals arbitrary: time_left waited)
  case Nil
  then show ?case by (simp split: option.splits)
next
  case (Cons a arrivals)
  obtain gap raw where a: "a = (gap, raw)" by (cases a)
  show ?case
  proof (cases "select_timeout_error time_left \<noteq> None \<or> time_left < gap
                  \<or> is_arp_response sender raw \<or> time_left - gap \<le> 0")
    case True
    with Cons.prems show ?thesis unfolding a arp_loop_Cons by (auto split: option.splits)
  next
    case False
    then have "0 \<le> time_left - gap" by simp
    from Cons.IH[OF this, of "waited + gap"] False Cons.prems
    show ?thesis unfolding a arp_loop_Cons by (simp split: option.splits)
  qed
qed

lemma echo_loop_waited:
  "0 \<le> time_left \<Longrightarrow>
   fst (snd (receive_echo_reply_loop arrivals src ident seq_no time_left waited))
     \<le> waited + time_left"
proof (induction arrivals arbitrary: time_left waited)
  case Nil
  then show ?case by (simp split: option.splits)
next
  case (Cons a arrivals)
  obtain gap raw where a: "a = (gap, raw)" by (cases a)
  show ?case
  proof (cases "select_timeout_error time_left \<noteq> None \<or> time_left < gap
                  \<or> echo_reply_found src ident seq_no raw \<noteq> Inr None
                  \<or> time_left - gap \<le> 0")
    case True
    with Cons.prems show ?thesis unfolding a echo_loop_Cons
      by (auto split: sum.splits option.splits)
  next
    case False
    then have "0 \<le> time_left - gap" by simp
    from Cons.IH[OF this, of "waited + gap"] False Cons.prems
    show ?thesis unfolding a echo_loop_Cons by (simp split: option.splits)
  qed
qed

text \<open>
  \<open>receive_arp_response\<close> with a timeout that \<open>select\<close> accepts, on arrivals whose gaps are
  not negative: it never raises, and it returns \<open>None\<close> when no arriving frame is the
  awaited response.
\<close>

lemma arp_loop_returns:
  "0 \<le> time_left \<Longrightarrow> time_left * 10 ^ 9 \<le> 2 ^ 63 - 1 \<Longrightarrow>
   \<forall>(gap, raw) \<in> set arrivals. 0 \<le> gap \<Longrightarrow>
   \<exists>r. fst (receive_arp_response_loop arrivals sender time_left waited) = Inr r"
proof (induction arrivals arbitrary: time_left waited)
  case Nil
  then show ?case by (simp add: select_timeout_ok)
next
  case (Cons a arrivals)
  obtain gap raw where a: "a = (gap, raw)" by (cases a)
  from Cons.prems(3) have gap: "0 \<le> gap" and rest: "\<forall>(gap, raw) \<in> set arrivals. 0 \<le> gap"
    by (auto simp add: a)
  have ok: "select_timeout_error time_left = None"
    using Cons.prems(1,2) by (rule select_timeout_ok)
  show ?case
  proof (cases "time_left < gap \<or> is_arp_response sender raw \<or> time_left - gap \<le> 0")
    case True
    then show ?thesis unfolding a arp_loop_Cons ok by auto
  next
    case False
    then have "0 \<le> time_left - gap" by simp
    moreover have "(time_left - gap) * 10 ^ 9 \<le> 2 ^ 63 - 1"
    proof -
      have "(time_left - gap) * 10 ^ 9 \<le> time_left * 10 ^ 9" using gap by simp
      with Cons.prems(2) show ?thesis by linarith
    qed
    ultimately have "\<exists>r. fst (receive_arp_response_loop arrivals sender (time_left - gap)
                            (waited + gap)) = Inr r"
      using rest by (rule Cons.IH)
    with False show ?thesis unfolding a arp_loop_Cons ok by simp
  qed
qed

lemma arp_loop_no_match:
  "0 \<le> time_left \<Longrightarrow> time_left * 10 ^ 9 \<le> 2 ^ 63 - 1 \<Longrightarrow>
   \<forall>(gap, raw) \<in> set arrivals. 0 \<le> gap \<and> \<not> is_arp_response sender raw \<Longrightarrow>
   fst (receive_arp_response_loop arrivals sender time_left waited) = Inr None"
proof (induction arrivals arbitrary: time_left waited)
  case Nil
  then show ?case by (simp add: select_timeout_ok)
next
  case (Cons a arrivals)
  obtain gap raw where a: "a = (gap, raw)" by (cases a)
  from Cons.prems(3) have gap: "0 \<le> gap" and no: "\<not> is_arp_response sender raw"
    and rest: "\<forall>(gap, raw) \<in> set arrivals. 0 \<le> gap \<and> \<not> is_arp_response sender raw"
    by (auto simp add: a)
  have ok: "select_timeout_error time_left = None"
    using Cons.prems(1,2) by (rule select_timeout_ok)
  show ?case
  proof (cases "time_left < gap \<or> time_left - gap \<le> 0")
    case True
    with no show ?thesis unfolding a arp_loop_Cons ok by auto
  next
    case False
    then have "0 \<le> time_left - gap" by simp
    moreover have "(time_left - gap) * 10 ^ 9 \<le> 2 ^ 63 - 1"
    proof -
      have "(time_left - gap) * 10 ^ 9 \<le> time_left * 10 ^ 9" using gap by simp
      with Cons.prems(2) show ?thesis by linarith
    qed
    ultimately have "fst (receive_arp_response_loop arrivals sender (time_left - gap)
                       (waited + gap)) = Inr None"
      using rest by (rule Cons.IH)
    with False no show ?thesis unfolding a arp_loop_Cons ok by simp
  qed
qed

text \<open>
  What holds of both waiters for every deadline \<open>d > 0\<close> and every sequence of arrivals:
  the time blocked in \<open>select\<close>, added up over all rounds, is at most \<open>d\<close>. Both are
  total functions of the arrivals, so they return.
\<close>

lemma reply_waiters_blocked_bound:
  "0 < d \<Longrightarrow>
   blocked (snd (receive_arp_response socket sender d)) - blocked socket \<le> d
   \<and> blocked (snd (receive_echo_reply socket src ident seq_no d)) - blocked socket \<le> d"
proof -
  assume "0 < d"
  then have d: "0 \<le> d" by simp
  have "blocked (snd (receive_arp_response socket sender d)) - blocked socket \<le> d"
    using arp_loop_waited[OF d, of "rx socket" sender 0]
    by (auto simp add: receive_arp_response_def split: prod.splits)
  moreover have "blocked (snd (receive_echo_reply socket src ident seq_no d)) - blocked socket \<le> d"
    using echo_loop_waited[OF d, of "rx socket" src ident seq_no 0]
    by (auto simp add: receive_echo_reply_def split: prod.splits)
  ultimately show ?thesis by blast
qed

text \<open>
  For a deadline that \<open>select\<close> accepts, \<open>receive_arp_response\<close> returns a value and never
  raises; it returns \<open>None\<close> when no arriving frame is the awaited response, and on a
  socket where nothing arrives both waiters return \<open>None\<close> after blocking for exactly \<open>d\<close>.
\<close>

lemma receive_arp_response_no_match:
  assumes "0 < d" "d * 10 ^ 9 \<le> 2 ^ 63 - 1" "\<forall>(gap, raw) \<in> set (rx socket). 0 \<le> gap"
  shows "\<exists>r. fst (receive_arp_response socket sender d) = Inr r"
    and "(\<forall>(gap, raw) \<in> set (rx socket). \<not> is_arp_response sender raw)
          \<Longrightarrow> fst (receive_arp_response socket sender d) = Inr None"
    and "receive_arp_response (socket\<lparr>rx := []\<rparr>) sender d
          = (Inr None, socket\<lparr>rx := [], blocked := blocked socket + d\<rparr>)"
    and "receive_echo_reply (socket\<lparr>rx := []\<rparr>) src ident seq_no d
          = (Inr None, socket\<lparr>rx := [], blocked := blocked socket + d\<rparr>)"
proof -
  have d: "0 \<le> d" using assms(1) by simp
  have ok: "select_timeout_error d = None" using d assms(2) by (rule select_timeout_ok)
  show "\<exists>r. fst (receive_arp_response socket sender d) = Inr r"
    using arp_loop_returns[OF d assms(2,3), of sender 0]
    by (auto simp add: receive_arp_response_def split: prod.splits)
  show "fst (receive_arp_response socket sender d) = Inr None"
    if "\<forall>(gap, raw) \<in> set (rx socket). \<not> is_arp_response sender raw"
  proof -
    from that assms(3)
    have "\<forall>(gap, raw) \<in> set (rx socket). 0 \<le> gap \<and> \<not> is_arp_response sender raw" by auto
    from arp_loop_no_match[OF d assms(2) this, of 0]
    show ?thesis by (auto simp add: receive_arp_response_def split: prod.splits)
  qed
  show "receive_arp_response (socket\<lparr>rx := []\<rparr>) sender d
          = (Inr None, socket\<lparr>rx := [], blocked := blocked socket + d\<rparr>)"
    by (simp add: receive_arp_response_def ok)
  show "receive_echo_reply (socket\<lparr>rx := []\<rparr>) src ident seq_no d
          = (Inr None, socket\<lparr>rx := [], blocked := blocked socket + d\<rparr>)"
    by (simp add: receive_echo_reply_def ok)
qed

text \<open>
  Claim C4 at a frame that is no reply. Within a deadline of a tenth of a time unit the
  socket delivers one frame for this host with ethertype IPv4 and no payload, fourteen
  bytes in all. It is not the awaited echo reply, so the waiter is to go on waiting and
  to return \<open>None\<close> at the deadline. \<open>receive_echo_reply\<close> instead hands the empty payload
  to \<open>decode_ipv4_packet\<close>, which reads \<open>data[0]\<close>: the IndexError is caught nowhere and
  leaves the waiter. \<open>receive_arp_response\<close> on the same frame with ethertype ARP decodes
  by slices alone, finds no match and returns \<open>None\<close>.
\<close>

theorem receive_echo_reply_short_frame:
  "fst (receive_echo_reply
         \<lparr>rx = [(0, MY_MAC_ADDR @ BROADCAST_MAC_ADDR @ IPV4)], tx = [], blocked = 0\<rparr>
         ROUTER_IP_ADDR 1 1 (1 / 10)) = Inl IndexError
   \<and> fst (receive_arp_response
         \<lparr>rx = [(0, MY_MAC_ADDR @ BROADCAST_MAC_ADDR @ ARP)], tx = [], blocked = 0\<rparr>
         ROUTER_IP_ADDR (1 / 10)) = Inr None"
  by (simp add: receive_echo_reply_def receive_arp_response_def select_timeout_error_def
        decode_ethernet_frame_def decode_arp_packet_def slice_of_def
        decode_ipv4_packet_eq MY_MAC_ADDR_def BROADCAST_MAC_ADDR_def IPV4_def ARP_def
        ROUTER_IP_ADDR_def)

section \<open>The routing decision\<close>

lemma same_subnet_iff:
  "length t = 4 \<Longrightarrow>
   (map2 (AND) t SUBNET_MASK = map2 (AND) MY_IP_ADDR SUBNET_MASK) = (take 3 t = [192, 168, 1])"
proof -
  assume "length t = 4"
  then obtain a b c d where t: "t = [a, b, c, d]"
    by (cases t; cases "tl t"; cases "tl (tl t)"; cases "tl (tl (tl t))"; cases "tl (tl (tl (tl t)))") auto
  have e: "(255 :: 8 word) = - 1" by simp
  have m: "x AND 255 = x" for x :: "8 word"
    unfolding e by (rule and.right_neutral)
  show ?thesis by (simp add: t SUBNET_MASK_def MY_IP_ADDR_def m)
qed

lemma is_on_same_subnet_eq:
  "is_on_same_subnet t = (map2 (AND) t SUBNET_MASK = map2 (AND) MY_IP_ADDR SUBNET_MASK)"
  by (auto simp add: is_on_same_subnet_def Let_def)

text \<open>
  Claim C1. For every 4-byte address \<open>t\<close>, \<open>resolve_ip_addr\<close> resolves \<open>t\<close> itself when
  \<open>t AND SUBNET_MASK\<close> equals \<open>MY_IP_ADDR AND SUBNET_MASK\<close>, byte by byte, and the router's
  address 192.168.1.1 otherwise. With own address 192.168.1.250 and mask 255.255.255.0
  the two prefixes are equal exactly when \<open>t\<close> begins with 192.168.1.
\<close>

theorem resolve_ip_addr_route:
  "length t = 4 \<Longrightarrow>
   resolve_ip_addr t w =
     resolve_local_ip_addr
       (if map2 (AND) t SUBNET_MASK = map2 (AND) MY_IP_ADDR SUBNET_MASK then t
        else ROUTER_IP_ADDR) w
   \<and> (map2 (AND) t SUBNET_MASK = map2 (AND) MY_IP_ADDR SUBNET_MASK) = (take 3 t = [192, 168, 1])"
  by (simp add: resolve_ip_addr_def is_on_same_subnet_eq same_subnet_iff)

text \<open>192.168.1.54 is resolved as itself, 8.8.8.8 through 192.168.1.1.\<close>

theorem resolve_ip_addr_route_witness:
  "length [192, 168, 1, 54 :: 8 word] = 4
   \<and> resolve_ip_addr [192, 168, 1, 54]
         \<lparr>ARP_TABLE = Map.empty, eno1 = \<lparr>rx = [], tx = [], blocked = 0\<rparr>\<rparr>
     = resolve_local_ip_addr [192, 168, 1, 54]
         \<lparr>ARP_TABLE = Map.empty, eno1 = \<lparr>rx = [], tx = [], blocked = 0\<rparr>\<rparr>
   \<and> length [8, 8, 8, 8 :: 8 word] = 4
   \<and> resolve_ip_addr [8, 8, 8, 8]
         \<lparr>ARP_TABLE = Map.empty, eno1 = \<lparr>rx = [], tx = [], blocked = 0\<rparr>\<rparr>
     = resolve_local_ip_addr [192, 168, 1, 1]
         \<lparr>ARP_TABLE = Map.empty, eno1 = \<lparr>rx = [], tx = [], blocked = 0\<rparr>\<rparr>"
  using resolve_ip_addr_route [of "[192, 168, 1, 54]"
          "\<lparr>ARP_TABLE = Map.empty, eno1 = \<lparr>rx = [], tx = [], blocked = 0\<rparr>\<rparr>"]
        resolve_ip_addr_route [of "[8, 8, 8, 8]"
          "\<lparr>ARP_TABLE = Map.empty, eno1 = \<lparr>rx = [], tx = [], blocked = 0\<rparr>\<rparr>"]
  by (simp add: ROUTER_IP_ADDR_def)

section \<open>The ARP cache\<close>

lemma resolve_local_cached:
  "ARP_TABLE w ip = Some mac \<Longrightarrow> resolve_local_ip_addr ip w = (Inr (Some mac), w)"
  by (simp add: resolve_local_ip_addr_def)

lemma resolve_local_stores:
  "resolve_local_ip_addr ip w = (Inr (Some mac), w') \<Longrightarrow> ARP_TABLE w' ip = Some mac"
  by (auto simp add: resolve_local_ip_addr_def Let_def ethernet_frame_def
        split: option.splits sum.splits prod.splits)

text \<open>
  Claim C5. When the address is in \<open>ARP_TABLE\<close>, \<open>resolve_local_ip_addr\<close> returns the stored
  hardware address and leaves the world as it was: nothing is added to the frames sent
  and no time is spent blocked. The same holds for \<open>resolve_ip_addr\<close> when the address it
  resolves, the target or the router, is in the table. And after a call of
  \<open>resolve_ip_addr\<close> that returned a hardware address, a second call for the same address
  returns it again and changes nothing; the address 192.168.1.1 is one case.
\<close>

theorem resolve_cached_no_io:
  "(ARP_TABLE w ip = Some mac \<longrightarrow> resolve_local_ip_addr ip w = (Inr (Some mac), w))
   \<and> (ARP_TABLE w (if is_on_same_subnet ip then ip else ROUTER_IP_ADDR) = Some mac
        \<longrightarrow> resolve_ip_addr ip w = (Inr (Some mac), w))
   \<and> (resolve_ip_addr ip w = (Inr (Some mac), w')
        \<longrightarrow> resolve_ip_addr ip w' = (Inr (Some mac), w'))"
  by (auto simp add: resolve_ip_addr_def resolve_local_cached dest: resolve_local_stores
        split: if_splits)

text \<open>
  A first call for 192.168.1.1 with an empty table: the request is broadcast, the router's
  reply arrives after a hundredth of a time unit, and its sender address is stored. The
  second call returns the stored address from the world the first call left, unchanged.
\<close>

theorem resolve_cached_no_io_witness:
  "ARP_TABLE
     \<lparr>ARP_TABLE = [ROUTER_IP_ADDR \<mapsto> [0x00, 0x11, 0x22, 0x33, 0x44, 0x55]],
      eno1 = \<lparr>rx = [],
               tx = [BROADCAST_MAC_ADDR @ MY_MAC_ADDR @ ARP
                     @ arp_request MY_MAC_ADDR MY_IP_ADDR ROUTER_IP_ADDR],
               blocked = 1 / 100\<rparr>\<rparr> ROUTER_IP_ADDR
     = Some [0x00, 0x11, 0x22, 0x33, 0x44, 0x55]
   \<and> resolve_local_ip_addr ROUTER_IP_ADDR
     \<lparr>ARP_TABLE = [ROUTER_IP_ADDR \<mapsto> [0x00, 0x11, 0x22, 0x33, 0x44, 0x55]],
      eno1 = \<lparr>rx = [],
               tx = [BROADCAST_MAC_ADDR @ MY_MAC_ADDR @ ARP
                     @ arp_request MY_MAC_ADDR MY_IP_ADDR ROUTER_IP_ADDR],
               blocked = 1 / 100\<rparr>\<rparr>
     = (Inr (Some [0x00, 0x11, 0x22, 0x33, 0x44, 0x55]),
        \<lparr>ARP_TABLE = [ROUTER_IP_ADDR \<mapsto> [0x00, 0x11, 0x22, 0x33, 0x44, 0x55]],
         eno1 = \<lparr>rx = [],
                  tx = [BROADCAST_MAC_ADDR @ MY_MAC_ADDR @ ARP
                        @ arp_request MY_MAC_ADDR MY_IP_ADDR ROUTER_IP_ADDR],
                  blocked = 1 / 100\<rparr>\<rparr>)
   \<and> resolve_ip_addr ROUTER_IP_ADDR
     \<lparr>ARP_TABLE = Map.empty,
      eno1 = \<lparr>rx = [(1 / 100, MY_MAC_ADDR @ [0x00, 0x11, 0x22, 0x33, 0x44, 0x55] @ ARP
                      @ [0x00, 0x01, 0x08, 0x00, 0x06, 0x04, 0x00, 0x02]
                      @ [0x00, 0x11, 0x22, 0x33, 0x44, 0x55] @ ROUTER_IP_ADDR
                      @ MY_MAC_ADDR @ MY_IP_ADDR)],
               tx = [], blocked = 0\<rparr>\<rparr>
     = (Inr (Some [0x00, 0x11, 0x22, 0x33, 0x44, 0x55]),
        \<lparr>ARP_TABLE = [ROUTER_IP_ADDR \<mapsto> [0x00, 0x11, 0x22, 0x33, 0x44, 0x55]],
         eno1 = \<lparr>rx = [],
                  tx = [BROADCAST_MAC_ADDR @ MY_MAC_ADDR @ ARP
                        @ arp_request MY_MAC_ADDR MY_IP_ADDR ROUTER_IP_ADDR],
                  blocked = 1 / 100\<rparr>\<rparr>)
   \<and> resolve_ip_addr ROUTER_IP_ADDR
     \<lparr>ARP_TABLE = [ROUTER_IP_ADDR \<mapsto> [0x00, 0x11, 0x22, 0x33, 0x44, 0x55]],
      eno1 = \<lparr>rx = [],
               tx = [BROADCAST_MAC_ADDR @ MY_MAC_ADDR @ ARP
                     @ arp_request MY_MAC_ADDR MY_IP_ADDR ROUTER_IP_ADDR],
               blocked = 1 / 100\<rparr>\<rparr>
     = (Inr (Some [0x00, 0x11, 0x22, 0x33, 0x44, 0x55]),
        \<lparr>ARP_TABLE = [ROUTER_IP_ADDR \<mapsto> [0x00, 0x11, 0x22, 0x33, 0x44, 0x55]],
         eno1 = \<lparr>rx = [],
                  tx = [BROADCAST_MAC_ADDR @ MY_MAC_ADDR @ ARP
                        @ arp_request MY_MAC_ADDR MY_IP_ADDR ROUTER_IP_ADDR],
                  blocked = 1 / 100\<rparr>\<rparr>)"
proof -
  let ?mac = "[0x00, 0x11, 0x22, 0x33, 0x44, 0x55] :: bytes"
  let ?w1 = "\<lparr>ARP_TABLE = [ROUTER_IP_ADDR \<mapsto> ?mac],
      eno1 = \<lparr>rx = [],
               tx = [BROADCAST_MAC_ADDR @ MY_MAC_ADDR @ ARP
                     @ arp_request MY_MAC_ADDR MY_IP_ADDR ROUTER_IP_ADDR],
               blocked = 1 / 100\<rparr>\<rparr>"
  let ?w0 = "\<lparr>ARP_TABLE = Map.empty,
      eno1 = \<lparr>rx = [(1 / 100, MY_MAC_ADDR @ ?mac @ ARP
                      @ [0x00, 0x01, 0x08, 0x00, 0x06, 0x04, 0x00, 0x02]
                      @ ?mac @ ROUTER_IP_ADDR @ MY_MAC_ADDR @ MY_IP_ADDR)],
               tx = [], blocked = 0\<rparr>\<rparr>"
  have same: "is_on_same_subnet ROUTER_IP_ADDR"
    by (simp add: is_on_same_subnet_def ROUTER_IP_ADDR_def MY_IP_ADDR_def SUBNET_MASK_def)
  have first: "resolve_ip_addr ROUTER_IP_ADDR ?w0 = (Inr (Some ?mac), ?w1)"
    by (simp add: resolve_ip_addr_def same resolve_local_ip_addr_def ethernet_frame_def send_def
          receive_arp_response_def select_timeout_error_def decode_ethernet_frame_def
          decode_arp_packet_def slice_of_def MY_MAC_ADDR_def ROUTER_IP_ADDR_def ARP_def)
  have table: "ARP_TABLE ?w1 ROUTER_IP_ADDR = Some ?mac" by simp
  from resolve_cached_no_io [of ?w1 ROUTER_IP_ADDR ?mac ?w1]
       resolve_cached_no_io [of ?w0 ROUTER_IP_ADDR ?mac ?w1] first table
  show ?thesis by simp
qed

section \<open>The echo request when resolution fails\<close>

lemma send_echo_request_unresolved:
  assumes "resolve_ip_addr dst w = (Inr None, w')"
    and "0 \<le> ident" "ident < 65536" "0 \<le> seq_no" "seq_no < 65536"
  shows "send_echo_request socket dst ident seq_no w = (Inl TypeError, socket, w')"
proof -
  obtain icmp where icmp: "icmp_ping_request_packet ident seq_no = Inr icmp" "length icmp = 16"
    using assms(2-5) unfolding icmp_ping_request_packet_eq Let_def
    by (simp add: encode_ascii_def)
  obtain packet where packet: "ip4_packet MY_IP_ADDR dst 1 icmp = Inr packet"
    unfolding ip4_packet_eq Let_def by (simp add: icmp(2))
  show ?thesis
    by (simp add: send_echo_request_def assms(1) icmp(1) packet ethernet_frame_def)
qed

text \<open>
  Claim C8 at an address nobody answers for. With an empty table and no arrival the
  resolver broadcasts its request, blocks for its whole timeout and returns \<open>None\<close>.
  \<open>send_echo_request\<close> passes that \<open>None\<close> to \<open>ethernet_frame\<close> as the destination, and
  \<open>None + src_addr\<close> raises TypeError: there is no outcome of its own for an unresolved
  address. Nothing is sent on the socket the echo request was to go out on.
\<close>

theorem send_echo_request_unresolved_raises:
  "send_echo_request \<lparr>rx = [], tx = [], blocked = 0\<rparr> ROUTER_IP_ADDR 1 1
     \<lparr>ARP_TABLE = Map.empty, eno1 = \<lparr>rx = [], tx = [], blocked = 0\<rparr>\<rparr>
   = (Inl TypeError,
      \<lparr>rx = [], tx = [], blocked = 0\<rparr>,
      \<lparr>ARP_TABLE = Map.empty,
       eno1 = \<lparr>rx = [],
                tx = [BROADCAST_MAC_ADDR @ MY_MAC_ADDR @ ARP
                      @ arp_request MY_MAC_ADDR MY_IP_ADDR ROUTER_IP_ADDR],
                blocked = 1\<rparr>\<rparr>)"
proof -
  have same: "is_on_same_subnet ROUTER_IP_ADDR"
    by (simp add: is_on_same_subnet_def ROUTER_IP_ADDR_def MY_IP_ADDR_def SUBNET_MASK_def)
  have "resolve_ip_addr ROUTER_IP_ADDR
          \<lparr>ARP_TABLE = Map.empty, eno1 = \<lparr>rx = [], tx = [], blocked = 0\<rparr>\<rparr>
        = (Inr None,
           \<lparr>ARP_TABLE = Map.empty,
            eno1 = \<lparr>rx = [],
                     tx = [BROADCAST_MAC_ADDR @ MY_MAC_ADDR @ ARP
                           @ arp_request MY_MAC_ADDR MY_IP_ADDR ROUTER_IP_ADDR],
                     blocked = 1\<rparr>\<rparr>)"
    by (simp add: resolve_ip_addr_def same resolve_local_ip_addr_def ethernet_frame_def send_def
          receive_arp_response_def select_timeout_error_def)
  then show ?thesis by (rule send_echo_request_unresolved) simp_all
qed

end
